theory Spec2Isabelle
  imports Complex_Main
begin

section \<open>Tensors, errors and broadcasting\<close>

text \<open>
  The kernels of \<^verbatim>\<open>GPflow/kernels.py\<close> are built from tensor primitives. A vector is a list,
  a matrix the list of its rows. Every Python exception and every failing tensor operation is a
  value of \<open>error\<close>: a function that can fail returns \<open>error + 'a\<close>, with \<open>Inl\<close> for the
  exception.
\<close>

type_synonym vec = "real list"
type_synonym mat = "real list list"

datatype error = RuntimeError | TypeError | ValueError | AssertionError | InvalidArgumentError

definition rbind :: "error + 'a \<Rightarrow> ('a \<Rightarrow> error + 'b) \<Rightarrow> error + 'b" where
  "rbind r f = (case r of Inl e \<Rightarrow> Inl e | Inr x \<Rightarrow> f x)"

text \<open>Evaluating a list of computations in order; the first exception wins.\<close>

fun sequence :: "(error + 'a) list \<Rightarrow> error + 'a list" where
  "sequence [] = Inr []"
| "sequence (r # rs) =
     (case r of Inl e \<Rightarrow> Inl e
      | Inr x \<Rightarrow> (case sequence rs of Inl e \<Rightarrow> Inl e | Inr xs \<Rightarrow> Inr (x # xs)))"

subsection \<open>Floating-point arithmetic\<close>

text \<open>
  The entries are \<^verbatim>\<open>float64\<close> numbers, each taken as the real number it denotes. An arithmetic
  operation computes the exact result and rounds it to the nearest number with a 53-bit
  significand, ties to the even significand (\<open>rnd\<close>); so addition and multiplication are not
  associative. \<open>exponent x\<close> is the binary exponent of \<open>x\<close> and \<open>scale2 e\<close> is two to the power
  \<open>e\<close>. Overflow, subnormal numbers, infinities and NaN are outside the model, and the library
  functions (\<^verbatim>\<open>sqrt\<close>, \<^verbatim>\<open>exp\<close>, \<^verbatim>\<open>cos\<close>, \<^verbatim>\<open>sin\<close>, \<^verbatim>\<open>pow\<close>) are taken as correctly rounded.
\<close>

definition round_even :: "real \<Rightarrow> int" where
  "round_even y =
     (let f = \<lfloor>y\<rfloor>; r = y - of_int f in
      if r < 1 / 2 then f else if 1 / 2 < r then f + 1 else if even f then f else f + 1)"

definition scale2 :: "int \<Rightarrow> real" where
  "scale2 e = (if 0 \<le> e then 2 ^ nat e else 1 / 2 ^ nat (- e))"

definition exponent :: "real \<Rightarrow> int" where
  "exponent x = \<lfloor>log 2 \<bar>x\<bar>\<rfloor>"

definition rnd :: "real \<Rightarrow> real" where
  "rnd x =
     (if x = 0 then 0
      else of_int (round_even (x / scale2 (exponent x - 52))) * scale2 (exponent x - 52))"

definition fadd :: "real \<Rightarrow> real \<Rightarrow> real" where
  "fadd x y = rnd (x + y)"

definition fsub :: "real \<Rightarrow> real \<Rightarrow> real" where
  "fsub x y = rnd (x - y)"

definition fmul :: "real \<Rightarrow> real \<Rightarrow> real" where
  "fmul x y = rnd (x * y)"

definition fdiv :: "real \<Rightarrow> real \<Rightarrow> real" where
  "fdiv x y = rnd (x / y)"

definition fsqrt :: "real \<Rightarrow> real" where
  "fsqrt x = rnd (sqrt x)"

definition fexp :: "real \<Rightarrow> real" where
  "fexp x = rnd (exp x)"

definition fcos :: "real \<Rightarrow> real" where
  "fcos x = rnd (cos x)"

definition fsin :: "real \<Rightarrow> real" where
  "fsin x = rnd (sin x)"

definition fpow :: "real \<Rightarrow> nat \<Rightarrow> real" where
  "fpow x n = rnd (x ^ n)"

text \<open>
  A sum and a product of a list. The libraries do not fix the order in which \<^verbatim>\<open>tf.matmul\<close>,
  \<^verbatim>\<open>tf.reduce_sum\<close> and \<^verbatim>\<open>np.prod\<close> combine the terms; the model takes them from left to right.
  A list of one number gives that number, whatever the order.
\<close>

fun fsum :: "real list \<Rightarrow> real" where
  "fsum [] = 0"
| "fsum (x # xs) = foldl fadd x xs"

fun fprod :: "real list \<Rightarrow> real" where
  "fprod [] = 1"
| "fprod (x # xs) = foldl fmul x xs"

subsection \<open>Shapes and broadcasting\<close>

text \<open>
  A matrix without rows is written \<open>[]\<close> whatever its width: \<open>ncols\<close> is the width of a matrix
  that has a row, and a check of the width passes on a matrix without rows.
\<close>

definition nrows :: "mat \<Rightarrow> nat" where
  "nrows X = length X"

definition ncols :: "mat \<Rightarrow> nat" where
  "ncols X = (case X of [] \<Rightarrow> 0 | r # _ \<Rightarrow> length r)"

text \<open>
  Broadcasting of a binary operation along one axis, as NumPy and TensorFlow do it: equal
  lengths combine pointwise, an axis of length one is repeated, anything else fails.
\<close>

definition bcast2 :: "('a \<Rightarrow> 'b \<Rightarrow> error + 'c) \<Rightarrow> 'a list \<Rightarrow> 'b list \<Rightarrow> error + 'c list" where
  "bcast2 f xs ys =
     (if length xs = length ys then sequence (map2 f xs ys)
      else if length xs = 1 then sequence (map (f (hd xs)) ys)
      else if length ys = 1 then sequence (map (\<lambda>x. f x (hd ys)) xs)
      else Inl InvalidArgumentError)"

definition bcast_vec :: "(real \<Rightarrow> real \<Rightarrow> real) \<Rightarrow> vec \<Rightarrow> vec \<Rightarrow> error + vec" where
  "bcast_vec f = bcast2 (\<lambda>a b. Inr (f a b))"

definition bcast_mat :: "(real \<Rightarrow> real \<Rightarrow> real) \<Rightarrow> mat \<Rightarrow> mat \<Rightarrow> error + mat" where
  "bcast_mat f = bcast2 (bcast_vec f)"

definition tf_add :: "mat \<Rightarrow> mat \<Rightarrow> error + mat" where
  "tf_add = bcast_mat fadd"

definition tf_mul :: "mat \<Rightarrow> mat \<Rightarrow> error + mat" where
  "tf_mul = bcast_mat fmul"

definition tf_add_vec :: "vec \<Rightarrow> vec \<Rightarrow> error + vec" where
  "tf_add_vec = bcast_vec fadd"

definition tf_mul_vec :: "vec \<Rightarrow> vec \<Rightarrow> error + vec" where
  "tf_mul_vec = bcast_vec fmul"

text \<open>
  A parameter is a scalar or a one-dimensional array; \<open>X * p\<close> and \<open>X / p\<close> broadcast it
  over the rows of the matrix \<open>X\<close>.
\<close>

datatype param = Scalar real | Vector vec

definition bcast_param :: "(real \<Rightarrow> real \<Rightarrow> real) \<Rightarrow> mat \<Rightarrow> param \<Rightarrow> error + mat" where
  "bcast_param f X p =
     (case p of
        Scalar s \<Rightarrow> Inr (map (map (\<lambda>x. f x s)) X)
      | Vector v \<Rightarrow> sequence (map (\<lambda>r. bcast_vec f r v) X))"

definition map_mat :: "(real \<Rightarrow> real) \<Rightarrow> mat \<Rightarrow> mat" where
  "map_mat f X = map (map f) X"

definition reduce_sum_rows :: "mat \<Rightarrow> vec" where
  "reduce_sum_rows X = map fsum X"

definition dot :: "vec \<Rightarrow> vec \<Rightarrow> real" where
  "dot a b = fsum (map2 fmul a b)"

text \<open>
  \<open>matmul_T A B\<close> is \<^verbatim>\<open>tf.matmul(A, tf.transpose(B))\<close>: entry \<open>(i, j)\<close> is the inner product
  of row \<open>i\<close> of \<open>A\<close> and row \<open>j\<close> of \<open>B\<close>; the rows must have one length.
\<close>

definition matmul_T :: "mat \<Rightarrow> mat \<Rightarrow> error + mat" where
  "matmul_T A B =
     (if \<forall>a \<in> set A. \<forall>b \<in> set B. length a = length b
      then Inr (map (\<lambda>a. map (\<lambda>b. dot a b) B) A)
      else Inl InvalidArgumentError)"

text \<open>Adding a column vector (shape \<open>N x 1\<close>) and a row vector (shape \<open>1 x M\<close>) to an \<open>N x M\<close> matrix.\<close>

definition add_col :: "mat \<Rightarrow> vec \<Rightarrow> mat" where
  "add_col M c = map2 (\<lambda>row x. map (\<lambda>a. fadd a x) row) M c"

definition add_row :: "mat \<Rightarrow> vec \<Rightarrow> mat" where
  "add_row M r = map (\<lambda>row. map2 fadd row r) M"

definition tf_fill :: "nat \<Rightarrow> real \<Rightarrow> vec" where
  "tf_fill n v = replicate n v"

definition tf_fill2 :: "nat \<Rightarrow> nat \<Rightarrow> real \<Rightarrow> mat" where
  "tf_fill2 n m v = replicate n (replicate m v)"

definition tf_zeros :: "nat \<Rightarrow> nat \<Rightarrow> mat" where
  "tf_zeros n m = replicate n (replicate m 0)"

definition tf_diag :: "vec \<Rightarrow> mat" where
  "tf_diag d = map (\<lambda>i. map (\<lambda>j. if i = j then d ! i else 0) [0..<length d]) [0..<length d]"

text \<open>\<^verbatim>\<open>tf.transpose\<close> of a matrix with \<open>n\<close> columns.\<close>

definition tf_transpose :: "nat \<Rightarrow> mat \<Rightarrow> mat" where
  "tf_transpose n M = map (\<lambda>j. map (\<lambda>r. r ! j) M) [0..<n]"

text \<open>\<^verbatim>\<open>tf.gather\<close>: the entries at the given indices; an index out of range fails.\<close>

definition tf_gather :: "'a list \<Rightarrow> int list \<Rightarrow> error + 'a list" where
  "tf_gather xs idx =
     (if \<forall>i \<in> set idx. 0 \<le> i \<and> i < int (length xs)
      then Inr (map (\<lambda>i. xs ! nat i) idx)
      else Inl InvalidArgumentError)"

text \<open>\<^verbatim>\<open>tf.cast(x, tf.int32)\<close> truncates towards zero.\<close>

definition tf_cast_int :: "real \<Rightarrow> int" where
  "tf_cast_int x = (if 0 \<le> x then \<lfloor>x\<rfloor> else \<lceil>x\<rceil>)"

text \<open>\<^verbatim>\<open>X[:, 0]\<close>: the first column; a matrix without columns has none.\<close>

definition col0 :: "mat \<Rightarrow> error + vec" where
  "col0 X = (if \<forall>r \<in> set X. r \<noteq> [] then Inr (map hd X) else Inl InvalidArgumentError)"

section \<open>Active dimensions\<close>

text \<open>
  \<open>active_dims\<close> is a Python slice (start, stop, step, each an integer or \<open>None\<close>) or an
  array of column indices. A slice selects the indices Python's \<^verbatim>\<open>slice.indices\<close> gives for
  the number of columns.
\<close>

datatype active_dims = Slice "int option" "int option" "int option" | Array "nat list"

definition py_range :: "int \<Rightarrow> int \<Rightarrow> int \<Rightarrow> nat list" where
  "py_range start stop step =
     (if 0 < step then
        (if start < stop
         then map (\<lambda>i. nat (start + int i * step)) [0..<nat ((stop - start + step - 1) div step)]
         else [])
      else
        (if stop < start
         then map (\<lambda>i. nat (start + int i * step)) [0..<nat ((start - stop - step - 1) div (- step))]
         else []))"

definition slice_indices :: "int option \<Rightarrow> int option \<Rightarrow> int option \<Rightarrow> nat \<Rightarrow> error + nat list" where
  "slice_indices start stop step n =
     (let st = (case step of None \<Rightarrow> 1 | Some s \<Rightarrow> s) in
      if st = 0 then Inl ValueError
      else
        let len = int n;
            lower = (if st < 0 then - 1 else 0);
            upper = (if st < 0 then len - 1 else len);
            a = (case start of
                   None \<Rightarrow> (if st < 0 then upper else lower)
                 | Some s \<Rightarrow> (if s < 0 then max (s + len) lower else min s upper));
            b = (case stop of
                   None \<Rightarrow> (if st < 0 then lower else upper)
                 | Some s \<Rightarrow> (if s < 0 then max (s + len) lower else min s upper))
        in Inr (py_range a b st))"

definition select_cols :: "nat list \<Rightarrow> mat \<Rightarrow> mat" where
  "select_cols idx X = map (\<lambda>r. map (\<lambda>i. r ! i) idx) X"

definition slice_cols :: "active_dims \<Rightarrow> mat \<Rightarrow> error + mat" where
  "slice_cols ad X =
     (case ad of
        Slice start stop step \<Rightarrow>
          rbind (slice_indices start stop step (ncols X)) (\<lambda>idx. Inr (select_cols idx X))
      | Array idx \<Rightarrow>
          (if X = [] \<or> (\<forall>i \<in> set idx. i < ncols X) then Inr (select_cols idx X)
           else Inl InvalidArgumentError))"

section \<open>Kernels\<close>

text \<open>
  The attributes every kernel object carries (\<^verbatim>\<open>Kern.__init__\<close>). \<open>input_size\<close> is the
  optional attribute \<^verbatim>\<open>exKxz\<close> looks for with \<^verbatim>\<open>hasattr\<close>; no class of the module sets it.
\<close>

record kern_attrs =
  input_dim :: nat
  active_dims :: active_dims
  num_gauss_hermite_points :: nat
  input_size :: "nat option"

datatype static_class = White | Constant | Bias
datatype stationary_class = RBF | Exponential | Matern12 | Matern32 | Matern52 | Cosine
datatype comb_class = Add | Prod

text \<open>
  One constructor per family of classes, with the parameters of the instance:
  \<^item> \<open>Static c a variance\<close>;
  \<^item> \<open>Stationary c a variance lengthscales\<close>;
  \<^item> \<open>Linear a variance\<close>;
  \<^item> \<open>Polynomial a variance degree offset\<close> (the degree a natural number);
  \<^item> \<open>PeriodicKernel a period variance lengthscales\<close>;
  \<^item> \<open>Coregion a W kappa\<close>;
  \<^item> \<open>Combination c a kern_list\<close>.
\<close>

datatype kern =
    Static static_class kern_attrs real
  | Stationary stationary_class kern_attrs real param
  | Linear kern_attrs param
  | Polynomial kern_attrs param nat real
  | PeriodicKernel kern_attrs real real real
  | Coregion kern_attrs mat vec
  | Combination comb_class kern_attrs "kern list"

fun attrs :: "kern \<Rightarrow> kern_attrs" where
  "attrs (Static c a v) = a"
| "attrs (Stationary c a v ls) = a"
| "attrs (Linear a v) = a"
| "attrs (Polynomial a v d off) = a"
| "attrs (PeriodicKernel a p v ls) = a"
| "attrs (Coregion a W kappa) = a"
| "attrs (Combination c a ks) = a"

text \<open>
  \<^verbatim>\<open>Kern._slice\<close>: both inputs are sliced, then the width of \<open>X\<close> is asserted; a matrix without
  rows passes the assertion.
\<close>

definition slice :: "kern_attrs \<Rightarrow> mat \<Rightarrow> mat option \<Rightarrow> error + (mat \<times> mat option)" where
  "slice a X X2 =
     rbind (slice_cols (active_dims a) X) (\<lambda>Xs.
     rbind (case X2 of None \<Rightarrow> Inr None
            | Some Y \<Rightarrow> rbind (slice_cols (active_dims a) Y) (\<lambda>Ys. Inr (Some Ys))) (\<lambda>X2s.
     if Xs = [] \<or> ncols Xs = input_dim a then Inr (Xs, X2s) else Inl InvalidArgumentError))"

text \<open>The keyword \<^verbatim>\<open>presliced\<close>: \<open>None\<close> when the caller leaves it out (the default is \<open>False\<close>).\<close>

definition is_presliced :: "bool option \<Rightarrow> bool" where
  "is_presliced p = (case p of None \<Rightarrow> False | Some b \<Rightarrow> b)"

definition maybe_slice :: "kern_attrs \<Rightarrow> bool option \<Rightarrow> mat \<Rightarrow> mat option \<Rightarrow> error + (mat \<times> mat option)" where
  "maybe_slice a p X X2 = (if is_presliced p then Inr (X, X2) else slice a X X2)"

subsection \<open>Stationary kernels\<close>

definition square_dist :: "param \<Rightarrow> mat \<Rightarrow> mat option \<Rightarrow> error + mat" where
  "square_dist lengthscales X X2 =
     rbind (bcast_param fdiv X lengthscales) (\<lambda>X.
     let Xs = reduce_sum_rows (map_mat (\<lambda>x. fmul x x) X) in
     case X2 of
       None \<Rightarrow>
         rbind (matmul_T X X) (\<lambda>XXt.
         Inr (add_row (add_col (map_mat (\<lambda>x. fmul (- 2) x) XXt) Xs) Xs))
     | Some X2 \<Rightarrow>
         rbind (bcast_param fdiv X2 lengthscales) (\<lambda>X2.
         let X2s = reduce_sum_rows (map_mat (\<lambda>x. fmul x x) X2) in
         rbind (matmul_T X X2) (\<lambda>XX2t.
         Inr (add_row (add_col (map_mat (\<lambda>x. fmul (- 2) x) XX2t) Xs) X2s))))"

definition euclid_dist :: "param \<Rightarrow> mat \<Rightarrow> mat option \<Rightarrow> error + mat" where
  "euclid_dist lengthscales X X2 =
     rbind (square_dist lengthscales X X2) (\<lambda>r2.
       Inr (map_mat (\<lambda>x. fsqrt (fadd x (rnd (1 / 10 ^ 12)))) r2))"

fun stationary_K :: "stationary_class \<Rightarrow> real \<Rightarrow> param \<Rightarrow> mat \<Rightarrow> mat option \<Rightarrow> error + mat" where
  "stationary_K RBF variance ls X X2 =
     rbind (square_dist ls X X2) (\<lambda>r2.
       Inr (map_mat (\<lambda>d. fmul variance (fexp (fdiv (- d) 2))) r2))"
| "stationary_K Exponential variance ls X X2 =
     rbind (euclid_dist ls X X2) (\<lambda>r.
       Inr (map_mat (\<lambda>r. fmul variance (fexp (fmul (- (1 / 2)) r))) r))"
| "stationary_K Matern12 variance ls X X2 =
     rbind (euclid_dist ls X X2) (\<lambda>r. Inr (map_mat (\<lambda>r. fmul variance (fexp (- r))) r))"
| "stationary_K Matern32 variance ls X X2 =
     rbind (euclid_dist ls X X2) (\<lambda>r.
       Inr (map_mat (\<lambda>r. fmul (fmul variance (fadd 1 (fmul (rnd (sqrt 3)) r)))
                              (fexp (fmul (- rnd (sqrt 3)) r))) r))"
| "stationary_K Matern52 variance ls X X2 =
     rbind (euclid_dist ls X X2) (\<lambda>r.
       Inr (map_mat (\<lambda>r. fmul (fmul variance
                                 (fadd (fadd 1 (fmul (rnd (sqrt 5)) r))
                                       (fmul (rnd (5 / 3)) (fmul r r))))
                              (fexp (fmul (- rnd (sqrt 5)) r))) r))"
| "stationary_K Cosine variance ls X X2 =
     rbind (euclid_dist ls X X2) (\<lambda>r. Inr (map_mat (\<lambda>r. fmul variance (fcos r)) r))"

subsection \<open>Linear, polynomial, periodic and coregionalisation kernels\<close>

definition linear_K :: "kern_attrs \<Rightarrow> param \<Rightarrow> mat \<Rightarrow> mat option \<Rightarrow> bool option \<Rightarrow> error + mat" where
  "linear_K a variance X X2 p =
     rbind (maybe_slice a p X X2) (\<lambda>(X, X2).
     rbind (bcast_param fmul X variance) (\<lambda>Xv.
     case X2 of None \<Rightarrow> matmul_T Xv X | Some X2 \<Rightarrow> matmul_T Xv X2))"

definition linear_Kdiag :: "kern_attrs \<Rightarrow> param \<Rightarrow> mat \<Rightarrow> bool option \<Rightarrow> error + vec" where
  "linear_Kdiag a variance X p =
     rbind (maybe_slice a p X None) (\<lambda>(X, _).
     rbind (bcast_param fmul (map_mat (\<lambda>x. fmul x x) X) variance) (\<lambda>Xv.
     Inr (reduce_sum_rows Xv)))"

definition periodic_K :: "kern_attrs \<Rightarrow> real \<Rightarrow> real \<Rightarrow> real \<Rightarrow> mat \<Rightarrow> mat option \<Rightarrow> bool option \<Rightarrow> error + mat" where
  "periodic_K a period variance lengthscales X X2 p =
     rbind (maybe_slice a p X X2) (\<lambda>(X, X2).
     let X2 = (case X2 of None \<Rightarrow> X | Some Y \<Rightarrow> Y) in
     sequence (map (\<lambda>f.
       sequence (map (\<lambda>f2.
         rbind (bcast_vec fsub f f2) (\<lambda>d.
         let r = fsum (map (\<lambda>t.
                   let s = fdiv (fsin (fdiv (fmul (rnd pi) t) period)) lengthscales
                   in fmul s s) d)
         in Inr (fmul variance (fexp (fmul (- (1 / 2)) r))))) X2)) X))"

definition coregion_B :: "mat \<Rightarrow> vec \<Rightarrow> error + mat" where
  "coregion_B W kappa = rbind (matmul_T W W) (\<lambda>WWt. tf_add WWt (tf_diag kappa))"

definition coregion_K :: "kern_attrs \<Rightarrow> mat \<Rightarrow> vec \<Rightarrow> mat \<Rightarrow> mat option \<Rightarrow> error + mat" where
  "coregion_K a W kappa X X2 =
     rbind (slice a X X2) (\<lambda>(X, X2).
     rbind (col0 X) (\<lambda>x0.
     let Xi = map tf_cast_int x0 in
     rbind (case X2 of None \<Rightarrow> Inr Xi
            | Some Y \<Rightarrow> rbind (col0 Y) (\<lambda>y0. Inr (map tf_cast_int y0))) (\<lambda>X2i.
     rbind (coregion_B W kappa) (\<lambda>B.
     rbind (tf_gather B X2i) (\<lambda>G.
     tf_gather (tf_transpose (length B) G) Xi)))))"

definition coregion_Kdiag :: "kern_attrs \<Rightarrow> mat \<Rightarrow> vec \<Rightarrow> mat \<Rightarrow> error + vec" where
  "coregion_Kdiag a W kappa X =
     rbind (slice a X None) (\<lambda>(X, _).
     rbind (col0 X) (\<lambda>x0.
     let Xi = map tf_cast_int x0 in
     rbind (tf_add_vec (reduce_sum_rows (map_mat (\<lambda>x. fmul x x) W)) kappa) (\<lambda>Bdiag.
     tf_gather Bdiag Xi)))"

subsection \<open>Combinations\<close>

text \<open>\<^verbatim>\<open>functools.reduce\<close> without an initial value: it raises \<^verbatim>\<open>TypeError\<close> on an empty list.\<close>

fun reduce_from :: "('a \<Rightarrow> 'a \<Rightarrow> error + 'a) \<Rightarrow> 'a \<Rightarrow> 'a list \<Rightarrow> error + 'a" where
  "reduce_from f acc [] = Inr acc"
| "reduce_from f acc (x # xs) = rbind (f acc x) (\<lambda>acc'. reduce_from f acc' xs)"

fun reduce :: "('a \<Rightarrow> 'a \<Rightarrow> error + 'a) \<Rightarrow> 'a list \<Rightarrow> error + 'a" where
  "reduce f [] = Inl TypeError"
| "reduce f (x # xs) = reduce_from f x xs"

fun comb_op :: "comb_class \<Rightarrow> mat \<Rightarrow> mat \<Rightarrow> error + mat" where
  "comb_op Add = tf_add"
| "comb_op Prod = tf_mul"

fun comb_op_vec :: "comb_class \<Rightarrow> vec \<Rightarrow> vec \<Rightarrow> error + vec" where
  "comb_op_vec Add = tf_add_vec"
| "comb_op_vec Prod = tf_mul_vec"

subsection \<open>The methods \<open>K\<close> and \<open>Kdiag\<close>\<close>

text \<open>
  \<open>K k X X2 p\<close> is \<^verbatim>\<open>k.K(X, X2)\<close> when \<open>p = None\<close> and \<^verbatim>\<open>k.K(X, X2, presliced=b)\<close> when
  \<open>p = Some b\<close>. \<^verbatim>\<open>Coregion.K\<close> has no parameter \<^verbatim>\<open>presliced\<close>, so passing one raises
  \<^verbatim>\<open>TypeError\<close>; so do \<^verbatim>\<open>Static.Kdiag\<close> and \<^verbatim>\<open>Coregion.Kdiag\<close>.
\<close>

fun K :: "kern \<Rightarrow> mat \<Rightarrow> mat option \<Rightarrow> bool option \<Rightarrow> error + mat" where
  "K (Static White a variance) X X2 p =
     (case X2 of
        None \<Rightarrow> Inr (tf_diag (tf_fill (nrows X) variance))
      | Some X2 \<Rightarrow> Inr (tf_zeros (nrows X) (nrows X2)))"
| "K (Static Constant a variance) X X2 p =
     (case X2 of
        None \<Rightarrow> Inr (tf_fill2 (nrows X) (nrows X) variance)
      | Some X2 \<Rightarrow> Inr (tf_fill2 (nrows X) (nrows X2) variance))"
| "K (Static Bias a variance) X X2 p =
     (case X2 of
        None \<Rightarrow> Inr (tf_fill2 (nrows X) (nrows X) variance)
      | Some X2 \<Rightarrow> Inr (tf_fill2 (nrows X) (nrows X2) variance))"
| "K (Stationary c a variance ls) X X2 p =
     rbind (maybe_slice a p X X2) (\<lambda>(X, X2). stationary_K c variance ls X X2)"
| "K (Linear a variance) X X2 p = linear_K a variance X X2 p"
| "K (Polynomial a variance degree offset) X X2 p =
     rbind (linear_K a variance X X2 p) (\<lambda>L.
       Inr (map_mat (\<lambda>x. fpow (fadd x offset) degree) L))"
| "K (PeriodicKernel a period variance ls) X X2 p = periodic_K a period variance ls X X2 p"
| "K (Coregion a W kappa) X X2 p =
     (case p of Some _ \<Rightarrow> Inl TypeError | None \<Rightarrow> coregion_K a W kappa X X2)"
| "K (Combination c a kern_list) X X2 p =
     rbind (sequence (map (\<lambda>k. K k X X2 None) kern_list)) (reduce (comb_op c))"

fun Kdiag :: "kern \<Rightarrow> mat \<Rightarrow> bool option \<Rightarrow> error + vec" where
  "Kdiag (Static c a variance) X p =
     (case p of Some _ \<Rightarrow> Inl TypeError | None \<Rightarrow> Inr (tf_fill (nrows X) variance))"
| "Kdiag (Stationary c a variance ls) X p = Inr (tf_fill (nrows X) variance)"
| "Kdiag (Linear a variance) X p = linear_Kdiag a variance X p"
| "Kdiag (Polynomial a variance degree offset) X p =
     rbind (linear_Kdiag a variance X p) (\<lambda>L.
       Inr (map (\<lambda>x. fpow (fadd x offset) degree) L))"
| "Kdiag (PeriodicKernel a period variance ls) X p = Inr (tf_fill (nrows X) variance)"
| "Kdiag (Coregion a W kappa) X p =
     (case p of Some _ \<Rightarrow> Inl TypeError | None \<Rightarrow> coregion_Kdiag a W kappa X)"
| "Kdiag (Combination c a kern_list) X p =
     rbind (sequence (map (\<lambda>k. Kdiag k X None) kern_list)) (reduce (comb_op_vec c))"

section \<open>Constructors\<close>

text \<open>
  \<^verbatim>\<open>Kern.__init__(input_dim, active_dims)\<close>. The argument \<open>active_dims\<close> is \<open>None\<close>, a slice or
  a sequence of indices. For a slice with start, stop and step all given the assertion evaluates
  \<^verbatim>\<open>range(*active_dims)\<close>, which raises \<^verbatim>\<open>TypeError\<close>: a slice cannot be unpacked.
\<close>

definition new_attrs :: "nat \<Rightarrow> active_dims \<Rightarrow> kern_attrs" where
  "new_attrs d ad =
     \<lparr>input_dim = d, active_dims = ad, num_gauss_hermite_points = 20, input_size = None\<rparr>"

definition Kern_init :: "nat \<Rightarrow> active_dims option \<Rightarrow> error + kern_attrs" where
  "Kern_init d ad =
     (case ad of
        None \<Rightarrow> Inr (new_attrs d (Slice None (Some (int d)) None))
      | Some (Slice start stop step) \<Rightarrow>
          (if start \<noteq> None \<and> stop \<noteq> None \<and> step \<noteq> None then Inl TypeError
           else Inr (new_attrs d (Slice start stop step)))
      | Some (Array idx) \<Rightarrow>
          (if length idx = d then Inr (new_attrs d (Array idx)) else Inl AssertionError))"

text \<open>\<^verbatim>\<open>p * np.ones(input_dim)\<close> for a float or an array \<open>p\<close>; NumPy raises \<^verbatim>\<open>ValueError\<close> when
  the shapes cannot be broadcast.\<close>

definition times_ones :: "param \<Rightarrow> nat \<Rightarrow> error + param" where
  "times_ones p d =
     (case p of
        Scalar s \<Rightarrow> Inr (Vector (replicate d s))
      | Vector v \<Rightarrow>
          (if length v = d then Inr (Vector v)
           else if length v = 1 then Inr (Vector (replicate d (hd v)))
           else if d = 1 then Inr (Vector v)
           else Inl ValueError))"

definition Static_init :: "static_class \<Rightarrow> nat \<Rightarrow> real \<Rightarrow> active_dims option \<Rightarrow> error + kern" where
  "Static_init c d variance ad = rbind (Kern_init d ad) (\<lambda>a. Inr (Static c a variance))"

definition Stationary_init ::
  "stationary_class \<Rightarrow> nat \<Rightarrow> real \<Rightarrow> param option \<Rightarrow> active_dims option \<Rightarrow> bool \<Rightarrow> error + kern" where
  "Stationary_init c d variance lengthscales ad ARD =
     rbind (Kern_init d ad) (\<lambda>a.
     if ARD then
       rbind (case lengthscales of None \<Rightarrow> Inr (Vector (replicate d 1))
              | Some p \<Rightarrow> times_ones p d) (\<lambda>ls. Inr (Stationary c a variance ls))
     else
       Inr (Stationary c a variance (case lengthscales of None \<Rightarrow> Scalar 1 | Some p \<Rightarrow> p)))"

definition Linear_init :: "nat \<Rightarrow> param \<Rightarrow> active_dims option \<Rightarrow> bool \<Rightarrow> error + kern" where
  "Linear_init d variance ad ARD =
     rbind (Kern_init d ad) (\<lambda>a.
     if ARD then rbind (times_ones variance d) (\<lambda>v. Inr (Linear a v))
     else Inr (Linear a variance))"

definition Polynomial_init :: "nat \<Rightarrow> nat \<Rightarrow> param \<Rightarrow> real \<Rightarrow> active_dims option \<Rightarrow> bool \<Rightarrow> error + kern" where
  "Polynomial_init d degree variance offset ad ARD =
     rbind (Kern_init d ad) (\<lambda>a.
     if ARD then rbind (times_ones variance d) (\<lambda>v. Inr (Polynomial a v degree offset))
     else Inr (Polynomial a variance degree offset))"

definition PeriodicKernel_init :: "nat \<Rightarrow> real \<Rightarrow> real \<Rightarrow> real \<Rightarrow> active_dims option \<Rightarrow> error + kern" where
  "PeriodicKernel_init d period variance lengthscales ad =
     rbind (Kern_init d ad) (\<lambda>a. Inr (PeriodicKernel a period variance lengthscales))"

definition Coregion_init :: "nat \<Rightarrow> nat \<Rightarrow> nat \<Rightarrow> active_dims option \<Rightarrow> error + kern" where
  "Coregion_init d output_dim rank ad =
     (if d \<noteq> 1 then Inl AssertionError
      else rbind (Kern_init d ad) (\<lambda>a.
        Inr (Coregion a (replicate output_dim (replicate rank 0)) (replicate output_dim 1))))"

text \<open>\<^verbatim>\<open>np.max\<close> of a list; it raises \<^verbatim>\<open>ValueError\<close> on an empty one.\<close>

fun np_max :: "nat list \<Rightarrow> error + nat" where
  "np_max [] = Inl ValueError"
| "np_max (x # xs) = Inr (fold max xs x)"

text \<open>The dimension a child contributes to a combination's \<open>input_dim\<close>.\<close>

definition child_dim :: "kern \<Rightarrow> error + nat" where
  "child_dim k =
     (case active_dims (attrs k) of
        Slice _ _ _ \<Rightarrow> Inr (input_dim (attrs k))
      | Array idx \<Rightarrow> rbind (np_max idx) (\<lambda>m. Inr (m + 1)))"

text \<open>\<^verbatim>\<open>isinstance(k, self.__class__)\<close> for a combination of class \<open>c\<close>.\<close>

fun is_instance :: "comb_class \<Rightarrow> kern \<Rightarrow> bool" where
  "is_instance c (Combination c' a ks) = (c' = c)"
| "is_instance c k = False"

fun kern_list :: "kern \<Rightarrow> kern list" where
  "kern_list (Combination c a ks) = ks"
| "kern_list k = []"

definition flatten :: "comb_class \<Rightarrow> kern list \<Rightarrow> kern list" where
  "flatten c ks = concat (map (\<lambda>k. if is_instance c k then kern_list k else [k]) ks)"

definition Combination_init :: "comb_class \<Rightarrow> kern list \<Rightarrow> error + kern" where
  "Combination_init c ks =
     rbind (sequence (map child_dim ks)) (\<lambda>dims.
     rbind (np_max dims) (\<lambda>d.
     rbind (Kern_init d None) (\<lambda>a.
     Inr (Combination c a (flatten c ks)))))"

text \<open>The operators \<^verbatim>\<open>+\<close> and \<^verbatim>\<open>*\<close> on kernels (\<^verbatim>\<open>Kern.__add__\<close>, \<^verbatim>\<open>Kern.__mul__\<close>).\<close>

definition kern_add :: "kern \<Rightarrow> kern \<Rightarrow> error + kern" where
  "kern_add k other = Combination_init Add [k, other]"

definition kern_mul :: "kern \<Rightarrow> kern \<Rightarrow> error + kern" where
  "kern_mul k other = Combination_init Prod [k, other]"

text \<open>The kernel objects the constructors of the module build.\<close>

inductive constructed :: "kern \<Rightarrow> bool" where
  Static: "Static_init c d v ad = Inr k \<Longrightarrow> constructed k"
| Stationary: "Stationary_init sc d v ls ad ARD = Inr k \<Longrightarrow> constructed k"
| Linear: "Linear_init d pv ad ARD = Inr k \<Longrightarrow> constructed k"
| Polynomial: "Polynomial_init d deg pv off ad ARD = Inr k \<Longrightarrow> constructed k"
| PeriodicKernel: "PeriodicKernel_init d per v l ad = Inr k \<Longrightarrow> constructed k"
| Coregion: "Coregion_init d od rk ad = Inr k \<Longrightarrow> constructed k"
| Combination: "\<forall>x \<in> set ks. constructed x \<Longrightarrow> Combination_init cc ks = Inr k \<Longrightarrow> constructed k"

section \<open>Gauss-Hermite quadrature\<close>

text \<open>
  Two primitives come from libraries outside the module and are parameters of the model:
  \<open>hg n\<close>, the nodes and weights \<^verbatim>\<open>np.polynomial.hermite.hermgauss(n)\<close> returns for \<open>n \<ge> 1\<close>, and
  \<open>chol\<close>, \<^verbatim>\<open>tf.cholesky\<close> on one matrix, which fails on a matrix that has no Cholesky factor.
\<close>

definition hermgauss :: "(nat \<Rightarrow> vec \<times> vec) \<Rightarrow> nat \<Rightarrow> error + (vec \<times> vec)" where
  "hermgauss hg n = (if n < 1 then Inl ValueError else Inr (hg n))"

text \<open>\<^verbatim>\<open>tf.reshape\<close> of the flattened entries to shape \<open>(-1, b)\<close>, \<open>(a, b)\<close> and \<open>(a, b, c)\<close>.\<close>

definition reshape_rows :: "nat \<Rightarrow> real list \<Rightarrow> error + mat" where
  "reshape_rows b flat =
     (if b = 0 \<or> length flat mod b \<noteq> 0 then Inl InvalidArgumentError
      else Inr (map (\<lambda>i. take b (drop (i * b) flat)) [0..<length flat div b]))"

definition reshape2 :: "nat \<Rightarrow> nat \<Rightarrow> real list \<Rightarrow> error + mat" where
  "reshape2 a b flat =
     (if length flat \<noteq> a * b then Inl InvalidArgumentError
      else Inr (map (\<lambda>i. take b (drop (i * b) flat)) [0..<a]))"

definition reshape3 :: "nat \<Rightarrow> nat \<Rightarrow> nat \<Rightarrow> real list \<Rightarrow> error + mat list" where
  "reshape3 a b c flat =
     (if length flat \<noteq> a * b * c then Inl InvalidArgumentError
      else Inr (map (\<lambda>i. map (\<lambda>j. take c (drop ((i * b + j) * c) flat)) [0..<b]) [0..<a]))"

text \<open>
  \<^verbatim>\<open>mvhermgauss(means, covs, H, D)\<close>: \<open>xn\<close> is the grid of nodes (\<^verbatim>\<open>itertools.product\<close>, the last
  coordinate running fastest), \<open>wn\<close> the products of the weights; location \<open>i\<close> of input \<open>n\<close>
  is \<open>sqrt 2 * chol (covs n) * xn i + means n\<close>, and the locations are returned grid point by
  grid point.
\<close>

definition mvhermgauss ::
  "(nat \<Rightarrow> vec \<times> vec) \<Rightarrow> (mat \<Rightarrow> error + mat) \<Rightarrow> mat \<Rightarrow> mat list \<Rightarrow> nat \<Rightarrow> nat \<Rightarrow> error + (mat \<times> vec)" where
  "mvhermgauss hg chol means covs H D =
     rbind (hermgauss hg H) (\<lambda>(gh_x, gh_w).
     let xn = product_lists (replicate D gh_x);
         wn = map fprod (product_lists (replicate D gh_w)) in
     rbind (sequence (map chol covs)) (\<lambda>cholXcov.
     if length cholXcov \<noteq> nrows means then Inl InvalidArgumentError
     else
       rbind (sequence (map2 (\<lambda>L mu.
                rbind (matmul_T L xn) (\<lambda>Lx.
                bcast_mat fadd (map_mat (\<lambda>x. fmul (rnd (sqrt 2)) x) Lx) (map (\<lambda>m. [m]) mu)))
              cholXcov means)) (\<lambda>X.
       let Xt = map (\<lambda>i. map (\<lambda>Xn. map (\<lambda>row. row ! i) Xn) X) [0..<length xn] in
       rbind (reshape_rows D (concat (concat Xt))) (\<lambda>Xr.
       Inr (Xr, map (\<lambda>w. fmul w (rnd (rnd pi powr (- (real D * (1 / 2)))))) wn)))))"

text \<open>
  The covariances of the inputs: a rank-2 tensor of diagonals (\<open>N x D\<close>) or a rank-3 tensor of
  full matrices (\<open>N x D x D\<close>). \<^verbatim>\<open>Kern._slice_cov\<close> turns diagonals into matrices and selects the
  active rows and columns.
\<close>

datatype cov = CovDiag mat | CovFull "mat list"

definition slice_cov :: "kern_attrs \<Rightarrow> cov \<Rightarrow> error + mat list" where
  "slice_cov a cv =
     (let C = (case cv of CovDiag c \<Rightarrow> map tf_diag c | CovFull c \<Rightarrow> c) in
      case active_dims a of
        Slice start stop step \<Rightarrow>
          sequence (map (\<lambda>M.
            rbind (slice_indices start stop step (nrows M)) (\<lambda>ri.
            rbind (slice_indices start stop step (ncols M)) (\<lambda>ci.
            Inr (map (\<lambda>i. map (\<lambda>j. M ! i ! j) ci) ri)))) C)
      | Array idx \<Rightarrow>
          sequence (map (\<lambda>M.
            if \<forall>i \<in> set idx. i < nrows M \<and> i < ncols M
            then Inr (map (\<lambda>i. map (\<lambda>j. M ! i ! j) idx) idx)
            else Inl InvalidArgumentError) C))"

subsection \<open>The quadrature check\<close>

fun class_name :: "kern \<Rightarrow> string" where
  "class_name (Static White a v) = ''White''"
| "class_name (Static Constant a v) = ''Constant''"
| "class_name (Static Bias a v) = ''Bias''"
| "class_name (Stationary RBF a v ls) = ''RBF''"
| "class_name (Stationary Exponential a v ls) = ''Exponential''"
| "class_name (Stationary Matern12 a v ls) = ''Matern12''"
| "class_name (Stationary Matern32 a v ls) = ''Matern32''"
| "class_name (Stationary Matern52 a v ls) = ''Matern52''"
| "class_name (Stationary Cosine a v ls) = ''Cosine''"
| "class_name (Linear a v) = ''Linear''"
| "class_name (Polynomial a v d off) = ''Polynomial''"
| "class_name (PeriodicKernel a p v ls) = ''PeriodicKernel''"
| "class_name (Coregion a W kappa) = ''Coregion''"
| "class_name (Combination Add a ks) = ''Add''"
| "class_name (Combination Prod a ks) = ''Prod''"

definition quadrature_warning :: "kern \<Rightarrow> string" where
  "quadrature_warning k =
     ''Using numerical quadrature for kernel expectation of <class 'GPflow.kernels.''
       @ class_name k @ [CHR 0x27] @ ''>. Use GPflow.ekernels instead.''"

text \<open>
  \<^verbatim>\<open>Kern._check_quadrature\<close> reads \<^verbatim>\<open>settings.numerics.ekern_quadrature\<close> (the argument
  \<open>setting\<close>). It returns the warnings it emits and either the exception it raises or \<open>()\<close>.
\<close>

definition check_quadrature :: "string \<Rightarrow> kern \<Rightarrow> string list \<times> (error + unit)" where
  "check_quadrature setting k =
     ((if setting = ''warn'' then [quadrature_warning k] else []),
      (if setting = ''error'' \<or> num_gauss_hermite_points (attrs k) = 0 then Inl RuntimeError
       else Inr ()))"

text \<open>An operation that starts with the check: the body runs only when the check raises nothing.\<close>

definition after_check :: "string \<Rightarrow> kern \<Rightarrow> (error + 'a) \<Rightarrow> string list \<times> (error + 'a)" where
  "after_check setting k body =
     (case check_quadrature setting k of
        (w, Inl e) \<Rightarrow> (w, Inl e)
      | (w, Inr _) \<Rightarrow> (w, body))"

subsection \<open>Expectations by quadrature\<close>

definition eKdiag ::
  "string \<Rightarrow> (nat \<Rightarrow> vec \<times> vec) \<Rightarrow> (mat \<Rightarrow> error + mat) \<Rightarrow> kern \<Rightarrow> mat \<Rightarrow> cov \<Rightarrow> string list \<times> (error + vec)" where
  "eKdiag setting hg chol k Xmu Xcov =
     after_check setting k
      (rbind (slice (attrs k) Xmu None) (\<lambda>(Xmu, _).
       rbind (slice_cov (attrs k) Xcov) (\<lambda>Xcov.
       rbind (mvhermgauss hg chol Xmu Xcov (num_gauss_hermite_points (attrs k)) (input_dim (attrs k))) (\<lambda>(X, wn).
       rbind (Kdiag k X (Some True)) (\<lambda>Kd.
       rbind (reshape2 (num_gauss_hermite_points (attrs k) ^ input_dim (attrs k)) (nrows Xmu) Kd) (\<lambda>Kd.
       rbind (bcast2 (\<lambda>row w. Inr (map (\<lambda>x. fmul x w) row)) Kd wn) (\<lambda>Kw.
       Inr (map (\<lambda>j. fsum (map (\<lambda>row. row ! j) Kw)) [0..<nrows Xmu]))))))))"

definition eKxz ::
  "string \<Rightarrow> (nat \<Rightarrow> vec \<times> vec) \<Rightarrow> (mat \<Rightarrow> error + mat) \<Rightarrow> kern \<Rightarrow> mat \<Rightarrow> mat \<Rightarrow> cov \<Rightarrow> string list \<times> (error + mat)" where
  "eKxz setting hg chol k Z Xmu Xcov =
     after_check setting k
      (rbind (slice (attrs k) Xmu (Some Z)) (\<lambda>(Xmu, Z).
       rbind (slice_cov (attrs k) Xcov) (\<lambda>Xcov.
       let N = nrows Xmu;
           M = (case Z of None \<Rightarrow> 0 | Some Z \<Rightarrow> nrows Z);
           HpowD = num_gauss_hermite_points (attrs k) ^ input_dim (attrs k) in
       rbind (mvhermgauss hg chol Xmu Xcov (num_gauss_hermite_points (attrs k)) (input_dim (attrs k))) (\<lambda>(X, wn).
       rbind (reshape_rows (input_dim (attrs k)) (concat X)) (\<lambda>Xr.
       rbind (K k Xr Z (Some True)) (\<lambda>Km.
       rbind (reshape3 HpowD N M (concat Km)) (\<lambda>Kxz.
       rbind (bcast2 (\<lambda>T w. Inr (map_mat (\<lambda>x. fmul x w) T)) Kxz wn) (\<lambda>Kw.
       Inr (map (\<lambda>n. map (\<lambda>m. fsum (map (\<lambda>T. T ! n ! m) Kw)) [0..<M]) [0..<N])))))))))"

definition eKzxKxz ::
  "string \<Rightarrow> (nat \<Rightarrow> vec \<times> vec) \<Rightarrow> (mat \<Rightarrow> error + mat) \<Rightarrow> kern \<Rightarrow> mat \<Rightarrow> mat \<Rightarrow> cov \<Rightarrow> string list \<times> (error + mat list)" where
  "eKzxKxz setting hg chol k Z Xmu Xcov =
     after_check setting k
      (rbind (slice (attrs k) Xmu (Some Z)) (\<lambda>(Xmu, Z).
       rbind (slice_cov (attrs k) Xcov) (\<lambda>Xcov.
       let N = nrows Xmu;
           M = (case Z of None \<Rightarrow> 0 | Some Z \<Rightarrow> nrows Z);
           HpowD = num_gauss_hermite_points (attrs k) ^ input_dim (attrs k) in
       rbind (mvhermgauss hg chol Xmu Xcov (num_gauss_hermite_points (attrs k)) (input_dim (attrs k))) (\<lambda>(X, wn).
       rbind (reshape_rows (input_dim (attrs k)) (concat X)) (\<lambda>Xr.
       rbind (K k Xr Z (Some True)) (\<lambda>Km.
       rbind (reshape3 HpowD N M (concat Km)) (\<lambda>Kxz.
       let KzxKxz = map (map (\<lambda>row. map (\<lambda>a. map (\<lambda>b. fmul a b) row) row)) Kxz in
       rbind (bcast2 (\<lambda>T w. Inr (map (map_mat (\<lambda>x. fmul x w)) T)) KzxKxz wn) (\<lambda>Kw.
       Inr (map (\<lambda>n. map (\<lambda>a. map (\<lambda>b. fsum (map (\<lambda>T. T ! n ! a ! b) Kw)) [0..<M]) [0..<M]) [0..<N])))))))))"

text \<open>Joining matrices along the columns and along the rows (\<^verbatim>\<open>tf.concat\<close>).\<close>

definition concat_cols :: "mat \<Rightarrow> mat \<Rightarrow> error + mat" where
  "concat_cols A B = (if length A = length B then Inr (map2 (@) A B) else Inl InvalidArgumentError)"

definition concat_rows :: "mat \<Rightarrow> mat \<Rightarrow> error + mat" where
  "concat_rows A B =
     (if A = [] \<or> B = [] \<or> ncols A = ncols B then Inr (A @ B) else Inl InvalidArgumentError)"

definition batch2 :: "(mat \<Rightarrow> mat \<Rightarrow> error + mat) \<Rightarrow> mat list \<Rightarrow> mat list \<Rightarrow> error + mat list" where
  "batch2 f As Bs =
     (if length As = length Bs then sequence (map2 f As Bs) else Inl InvalidArgumentError)"

text \<open>
  \<^verbatim>\<open>Kern.exKxz\<close>. \<open>Xcov\<close> has shape \<open>2 x (T+1) x D x D\<close>; nothing is sliced, and \<open>K\<close> is called
  without \<^verbatim>\<open>presliced\<close>. With no row in \<open>Xmu\<close> the number of pairs \<open>N\<close> would be negative and
  the reshapes fail.
\<close>

definition exKxz ::
  "string \<Rightarrow> (nat \<Rightarrow> vec \<times> vec) \<Rightarrow> (mat \<Rightarrow> error + mat) \<Rightarrow> kern \<Rightarrow> mat \<Rightarrow> mat \<Rightarrow> mat list list \<Rightarrow> string list \<times> (error + mat list)" where
  "exKxz setting hg chol k Z Xmu Xcov =
     after_check setting k
      (if Xmu = [] then Inl InvalidArgumentError
       else
       let N = nrows Xmu - 1;
           M = nrows Z;
           D = (case input_size (attrs k) of Some s \<Rightarrow> s | None \<Rightarrow> input_dim (attrs k));
           Hpow2D = num_gauss_hermite_points (attrs k) ^ (2 * D) in
       if ncols Xmu \<noteq> D \<or> length Xcov < 2 then Inl InvalidArgumentError
       else
       let fXmu = map2 (@) (butlast Xmu) (tl Xmu) in
       rbind (batch2 concat_cols (butlast (Xcov ! 0)) (butlast (Xcov ! 1))) (\<lambda>fXcovt.
       rbind (batch2 concat_cols (map (\<lambda>B. tf_transpose (ncols B) B) (butlast (Xcov ! 1))) (tl (Xcov ! 0))) (\<lambda>fXcovb.
       rbind (batch2 concat_rows fXcovt fXcovb) (\<lambda>fXcov.
       rbind (mvhermgauss hg chol fXmu fXcov (num_gauss_hermite_points (attrs k)) (D * 2)) (\<lambda>(X, wn).
       rbind (K k (map (take D) X) (Some Z) None) (\<lambda>Km.
       rbind (reshape3 Hpow2D N M (concat Km)) (\<lambda>Kxz.
       rbind (reshape3 Hpow2D N D (concat (map (drop D) X))) (\<lambda>Xd.
       let P = map2 (\<lambda>Xi Ki. map2 (\<lambda>x kr. map (\<lambda>kv. map (\<lambda>xv. fmul xv kv) x) kr) Xi Ki) Xd Kxz in
       rbind (bcast2 (\<lambda>T w. Inr (map (map_mat (\<lambda>x. fmul x w)) T)) P wn) (\<lambda>Pw.
       Inr (map (\<lambda>n. map (\<lambda>m. map (\<lambda>d. fsum (map (\<lambda>T. T ! n ! m ! d) Pw)) [0..<D]) [0..<M]) [0..<N]))))))))))"

section \<open>Auxiliary predicates\<close>

text \<open>A computation that does not raise \<^verbatim>\<open>RuntimeError\<close>.\<close>

definition no_RuntimeError :: "error + 'a \<Rightarrow> bool" where
  "no_RuntimeError r = (r \<noteq> Inl RuntimeError)"

text \<open>
  The dimension a child stands for in a combination, in the words of the specification: its
  \<open>input_dim\<close> when its \<open>active_dims\<close> is a slice, the largest active index plus one when it is
  an array. \<open>comb_inv\<close> is the invariant of a combination: a list of kernels that is not empty
  and holds no combination of the same class, and an \<open>input_dim\<close> that is the largest
  dimension of a child.
\<close>

definition dim_of :: "kern \<Rightarrow> nat" where
  "dim_of k =
     (case active_dims (attrs k) of
        Slice _ _ _ \<Rightarrow> input_dim (attrs k)
      | Array idx \<Rightarrow> Max (set idx) + 1)"

definition comb_inv :: "kern \<Rightarrow> bool" where
  "comb_inv k =
     (case k of
        Combination c a ks \<Rightarrow>
          ks \<noteq> [] \<and> (\<forall>x \<in> set ks. \<not> is_instance c x)
          \<and> (\<exists>s e st. active_dims a = Slice s e st)
          \<and> input_dim a = Max (dim_of ` set ks)
      | _ \<Rightarrow> True)"

text \<open>
  The kernels an operand gives to a combination of class \<open>c\<close>: its list when it is itself a
  combination of that class, else the operand alone (the loop of \<^verbatim>\<open>Combination.__init__\<close>).
\<close>

definition operands :: "comb_class \<Rightarrow> kern \<Rightarrow> kern list" where
  "operands c k = (if is_instance c k then kern_list k else [k])"

text \<open>A matrix with \<open>n\<close> rows of length \<open>m\<close>.\<close>

definition has_shape :: "nat \<Rightarrow> nat \<Rightarrow> 'a list list \<Rightarrow> bool" where
  "has_shape n m A = (length A = n \<and> (\<forall>r \<in> set A. length r = m))"

text \<open>The rounded scalar operation behind \<^verbatim>\<open>tf.add\<close> and \<^verbatim>\<open>tf.mul\<close>.\<close>

fun comb_fun :: "comb_class \<Rightarrow> real \<Rightarrow> real \<Rightarrow> real" where
  "comb_fun Add = fadd"
| "comb_fun Prod = fmul"









text \<open>
  Two inputs are the same for a kernel when they have as many rows and the same active columns;
  for a combination, when they are the same for every kernel of its list.
\<close>

fun same_inputs :: "kern \<Rightarrow> mat \<Rightarrow> mat \<Rightarrow> bool" where
  "same_inputs (Combination c a ks) X X' = (\<forall>k \<in> set ks. same_inputs k X X')"
| "same_inputs k X X' =
     (length X = length X' \<and> slice_cols (active_dims (attrs k)) X = slice_cols (active_dims (attrs k)) X')"

definition same_inputs2 :: "kern \<Rightarrow> mat option \<Rightarrow> mat option \<Rightarrow> bool" where
  "same_inputs2 k X2 X2' =
     (case X2 of
        None \<Rightarrow> X2' = None
      | Some Y \<Rightarrow> (case X2' of None \<Rightarrow> False | Some Y' \<Rightarrow> same_inputs k Y Y'))"


section \<open>Rounding\<close>

text \<open>
  \<open>rnd x\<close> is evaluated from the binary exponent of \<open>x\<close>; an integer below \<open>2 ^ 53\<close> in absolute
  value is a \<^verbatim>\<open>float64\<close> number, and rounding leaves it as it is.
\<close>

lemma scale2_powr: "scale2 e = 2 powr (of_int e)"
  by (simp add: scale2_def powr_int)

lemma scale2_pos [simp]: "0 < scale2 e"
  by (simp add: scale2_def)

lemma exponent_eq:
  assumes "x \<noteq> 0" "scale2 e \<le> \<bar>x\<bar>" "\<bar>x\<bar> < scale2 (e + 1)"
  shows "exponent x = e"
  unfolding exponent_def
  using assms floor_log_eq_powr_iff [of "\<bar>x\<bar>" 2 e] by (simp add: scale2_powr)

lemma rnd_eval:
  assumes "scale2 e \<le> \<bar>x\<bar>" "\<bar>x\<bar> < scale2 (e + 1)"
  shows "rnd x = of_int (round_even (x / scale2 (e - 52))) * scale2 (e - 52)"
proof -
  have "0 < \<bar>x\<bar>" using assms(1) scale2_pos [of e] by linarith
  then have "x \<noteq> 0" by simp
  then show ?thesis
    using exponent_eq [OF _ assms] by (simp add: rnd_def)
qed

lemma round_even_of_int [simp]: "round_even (of_int n) = n"
  by (simp add: round_even_def)

lemma rnd_0 [simp]: "rnd 0 = 0"
  by (simp add: rnd_def)

lemma rnd_of_int:
  assumes "\<bar>n\<bar> < 2 ^ 53"
  shows "rnd (of_int n) = of_int n"
proof (cases "n = 0")
  case True
  then show ?thesis by simp
next
  case False
  define e where "e = exponent (of_int n)"
  define k where "k = nat (52 - e)"
  have "\<bar>real_of_int n\<bar> < 2 ^ 53"
    using assms by (metis of_int_abs of_int_less_numeral_power_cancel_iff)
  then have "log 2 \<bar>real_of_int n\<bar> < 53"
    using False by (simp add: log_less_iff)
  then have "e \<le> 52"
    unfolding e_def exponent_def by linarith
  then have s: "scale2 (e - 52) = 1 / 2 ^ k"
    by (simp add: scale2_def k_def)
  have "real_of_int n / scale2 (e - 52) = of_int (n * 2 ^ k)"
    by (simp add: s)
  then have "round_even (real_of_int n / scale2 (e - 52)) = n * 2 ^ k"
    by (simp only: round_even_of_int)
  then show ?thesis
    using False by (simp add: rnd_def e_def [symmetric] s)
qed

lemma rnd_1 [simp]: "rnd 1 = 1"
  using rnd_of_int [of 1] by simp

lemma rnd_neg_1 [simp]: "rnd (- 1) = - 1"
  using rnd_of_int [of "- 1"] by simp

lemma rnd_numeral [simp]: "numeral w < (2 :: int) ^ 53 \<Longrightarrow> rnd (numeral w) = numeral w"
  using rnd_of_int [of "numeral w"] by simp

lemma rnd_neg_numeral [simp]: "numeral w < (2 :: int) ^ 53 \<Longrightarrow> rnd (- numeral w) = - numeral w"
  using rnd_of_int [of "- numeral w"] by simp

text \<open>Rounding commutes with a multiplication by two, so trailing zero bits are stripped.\<close>

lemma exponent_double:
  assumes "x \<noteq> 0"
  shows "exponent (2 * x) = exponent x + 1"
proof -
  have "log 2 \<bar>2 * x\<bar> = 1 + log 2 \<bar>x\<bar>"
    using assms by (simp add: abs_mult log_mult)
  then show ?thesis
    by (simp add: exponent_def)
qed

lemma scale2_Suc: "scale2 (e + 1) = 2 * scale2 e"
  by (simp add: scale2_powr powr_add)

lemma rnd_double: "rnd (2 * x) = 2 * rnd x"
proof (cases "x = 0")
  case True
  then show ?thesis by simp
next
  case False
  have "scale2 (exponent x + 1 - 52) = 2 * scale2 (exponent x - 52)"
    using scale2_Suc [of "exponent x - 52"] by (simp add: algebra_simps)
  then show ?thesis
    using False by (simp add: rnd_def exponent_double)
qed

lemma numeral_double: "(numeral (Num.Bit0 w) :: real) = 2 * numeral w"
proof -
  have "(numeral (Num.Bit0 w) :: real) = numeral w + numeral w"
    by (rule numeral_Bit0)
  also have "\<dots> = 2 * numeral w"
    by (rule mult_2 [symmetric])
  finally show ?thesis .
qed

lemma rnd_Bit0 [simp]: "rnd (numeral (Num.Bit0 w)) = 2 * rnd (numeral w)"
  by (simp only: numeral_double [of w] rnd_double)

lemma rnd_neg_Bit0 [simp]: "rnd (- numeral (Num.Bit0 w)) = 2 * rnd (- numeral w)"
proof -
  have "(- numeral (Num.Bit0 w) :: real) = 2 * (- numeral w)"
    unfolding numeral_double [of w] by (rule mult_minus_right [symmetric])
  then show ?thesis
    by (simp only: rnd_double)
qed

lemmas float_eval = fadd_def fsub_def fmul_def fdiv_def

section \<open>The diagonal of static and stationary kernels\<close>

text \<open>
  C9. For every stationary kernel (whatever \<^verbatim>\<open>presliced\<close> is) and every static kernel, and for
  every input \<open>X\<close> with \<open>N\<close> rows, \<open>Kdiag\<close> returns a vector of length \<open>N\<close> whose entries all equal
  the variance parameter; the values in \<open>X\<close> play no part.
\<close>

theorem Kdiag_constant_variance:
  "(\<exists>d. Kdiag (Stationary c a variance ls) X p = Inr d \<and> length d = nrows X
        \<and> (\<forall>i<nrows X. d ! i = variance))
   \<and> (\<exists>d. Kdiag (Static c' a' variance') X None = Inr d \<and> length d = nrows X
        \<and> (\<forall>i<nrows X. d ! i = variance'))"
  by (simp add: tf_fill_def)

theorem Kdiag_constant_variance_witness:
  "Kdiag (Stationary Cosine \<lparr>input_dim = 1, active_dims = Slice None (Some 1) None,
            num_gauss_hermite_points = 20, input_size = None\<rparr> 3 (Scalar 1)) [[5], [7]] None
     = Inr [3, 3]
   \<and> Kdiag (Static White \<lparr>input_dim = 1, active_dims = Slice None (Some 1) None,
            num_gauss_hermite_points = 20, input_size = None\<rparr> 4) [[5], [7]] None
     = Inr [4, 4]"
  using Kdiag_constant_variance [of Cosine
      "\<lparr>input_dim = 1, active_dims = Slice None (Some 1) None,
        num_gauss_hermite_points = 20, input_size = None\<rparr>" 3 "Scalar 1" "[[5], [7]]" None White
      "\<lparr>input_dim = 1, active_dims = Slice None (Some 1) None,
        num_gauss_hermite_points = 20, input_size = None\<rparr>" 4]
  by (simp add: nrows_def tf_fill_def)

section \<open>The white kernel\<close>

text \<open>
  C10. For the White kernel, \<open>K(X, X2)\<close> with \<open>X2\<close> given is the zero matrix with as many rows
  as \<open>X\<close> and as many columns as \<open>X2\<close> has rows; \<open>K(X)\<close> with \<open>X2\<close> left out is the diagonal
  matrix whose diagonal entries all equal the variance.
\<close>

theorem White_K:
  "(\<exists>Z. K (Static White a variance) X (Some X2) p = Inr Z \<and> length Z = nrows X
        \<and> (\<forall>i<nrows X. length (Z ! i) = nrows X2 \<and> (\<forall>j<nrows X2. Z ! i ! j = 0)))
   \<and> (\<exists>D. K (Static White a variance) X None p = Inr D \<and> length D = nrows X
        \<and> (\<forall>i<nrows X. length (D ! i) = nrows X
              \<and> (\<forall>j<nrows X. D ! i ! j = (if i = j then variance else 0))))"
  by (simp add: tf_zeros_def tf_diag_def tf_fill_def)

theorem White_K_witness:
  "K (Static White \<lparr>input_dim = 1, active_dims = Slice None (Some 1) None,
        num_gauss_hermite_points = 20, input_size = None\<rparr> 4) [[5], [7]] (Some [[1], [2], [3]]) None
     = Inr [[0, 0, 0], [0, 0, 0]]
   \<and> K (Static White \<lparr>input_dim = 1, active_dims = Slice None (Some 1) None,
        num_gauss_hermite_points = 20, input_size = None\<rparr> 4) [[5], [7]] None None
     = Inr [[4, 0], [0, 4]]"
  using White_K [of
      "\<lparr>input_dim = 1, active_dims = Slice None (Some 1) None,
        num_gauss_hermite_points = 20, input_size = None\<rparr>" 4 "[[5], [7]]" "[[1], [2], [3]]" None]
  by (simp add: nrows_def tf_zeros_def tf_diag_def tf_fill_def numeral_3_eq_3)

section \<open>The quadrature check\<close>

text \<open>
  No tensor operation, constructor or kernel method of the model raises \<^verbatim>\<open>RuntimeError\<close>: the
  only place that does is \<^verbatim>\<open>_check_quadrature\<close>.
\<close>

lemma no_RuntimeError_simps [simp]:
  "no_RuntimeError (Inr x)" "no_RuntimeError (Inl e) = (e \<noteq> RuntimeError)"
  by (simp_all add: no_RuntimeError_def)


lemma rbind_not_RuntimeError:
  "no_RuntimeError r \<Longrightarrow> (\<And>x. no_RuntimeError (f x)) \<Longrightarrow> no_RuntimeError (rbind r f)"
  by (cases r) (auto simp: rbind_def)

lemma sequence_not_RuntimeError:
  "(\<And>r. r \<in> set rs \<Longrightarrow> no_RuntimeError r) \<Longrightarrow> no_RuntimeError (sequence rs)"
proof (induction rs)
  case Nil
  then show ?case by simp
next
  case (Cons r rs)
  have "no_RuntimeError r" "no_RuntimeError (sequence rs)"
    using Cons by simp_all
  then show ?case
    by (cases r; cases "sequence rs") simp_all
qed

lemma bcast2_not_RuntimeError:
  "(\<And>a b. no_RuntimeError (f a b)) \<Longrightarrow> no_RuntimeError (bcast2 f xs ys)"
  unfolding bcast2_def by (auto intro!: sequence_not_RuntimeError dest!: set_zip_leftD)

lemma bcast_vec_not_RuntimeError [simp]: "no_RuntimeError (bcast_vec f x y)"
  unfolding bcast_vec_def by (rule bcast2_not_RuntimeError) simp

lemma bcast_mat_not_RuntimeError [simp]: "no_RuntimeError (bcast_mat f x y)"
  unfolding bcast_mat_def by (rule bcast2_not_RuntimeError) simp

lemma bcast_param_not_RuntimeError [simp]: "no_RuntimeError (bcast_param f X p)"
  unfolding bcast_param_def by (cases p) (auto intro!: sequence_not_RuntimeError)

lemma matmul_T_not_RuntimeError [simp]: "no_RuntimeError (matmul_T A B)"
  by (simp add: matmul_T_def)

lemma tf_gather_not_RuntimeError [simp]: "no_RuntimeError (tf_gather xs idx)"
  by (simp add: tf_gather_def)

lemma col0_not_RuntimeError [simp]: "no_RuntimeError (col0 X)"
  by (simp add: col0_def)

lemma slice_indices_not_RuntimeError [simp]: "no_RuntimeError (slice_indices a b c n)"
  by (simp add: slice_indices_def Let_def)

lemma slice_cols_not_RuntimeError [simp]: "no_RuntimeError (slice_cols ad X)"
  unfolding slice_cols_def by (cases ad) (auto intro!: rbind_not_RuntimeError)

lemma slice_not_RuntimeError [simp]: "no_RuntimeError (slice a X X2)"
  unfolding slice_def by (cases X2) (auto intro!: rbind_not_RuntimeError)

lemma maybe_slice_not_RuntimeError [simp]: "no_RuntimeError (maybe_slice a p X X2)"
  by (simp add: maybe_slice_def)

lemma square_dist_not_RuntimeError [simp]: "no_RuntimeError (square_dist ls X X2)"
  unfolding square_dist_def Let_def by (cases X2) (auto intro!: rbind_not_RuntimeError)

lemma euclid_dist_not_RuntimeError [simp]: "no_RuntimeError (euclid_dist ls X X2)"
  unfolding euclid_dist_def by (auto intro!: rbind_not_RuntimeError)

lemma stationary_K_not_RuntimeError [simp]: "no_RuntimeError (stationary_K c v ls X X2)"
  by (cases c) (auto intro!: rbind_not_RuntimeError)

lemma linear_K_not_RuntimeError [simp]: "no_RuntimeError (linear_K a v X X2 p)"
  unfolding linear_K_def by (auto intro!: rbind_not_RuntimeError split: option.splits)

lemma linear_Kdiag_not_RuntimeError [simp]: "no_RuntimeError (linear_Kdiag a v X p)"
  unfolding linear_Kdiag_def by (auto intro!: rbind_not_RuntimeError)

lemma periodic_K_not_RuntimeError [simp]: "no_RuntimeError (periodic_K a per v ls X X2 p)"
  unfolding periodic_K_def Let_def
  by (auto intro!: rbind_not_RuntimeError sequence_not_RuntimeError)

lemma tf_add_not_RuntimeError [simp]: "no_RuntimeError (tf_add A B)"
  by (simp add: tf_add_def)

lemma tf_mul_not_RuntimeError [simp]: "no_RuntimeError (tf_mul A B)"
  by (simp add: tf_mul_def)

lemma tf_add_vec_not_RuntimeError [simp]: "no_RuntimeError (tf_add_vec A B)"
  by (simp add: tf_add_vec_def)

lemma tf_mul_vec_not_RuntimeError [simp]: "no_RuntimeError (tf_mul_vec A B)"
  by (simp add: tf_mul_vec_def)

lemma coregion_K_not_RuntimeError [simp]: "no_RuntimeError (coregion_K a W kappa X X2)"
  unfolding coregion_K_def coregion_B_def Let_def
  by (auto intro!: rbind_not_RuntimeError split: option.splits)

lemma coregion_Kdiag_not_RuntimeError [simp]: "no_RuntimeError (coregion_Kdiag a W kappa X)"
  unfolding coregion_Kdiag_def Let_def
  by (auto intro!: rbind_not_RuntimeError)

lemma reduce_from_not_RuntimeError:
  "(\<And>a b. no_RuntimeError (f a b)) \<Longrightarrow> no_RuntimeError (reduce_from f acc xs)"
  by (induction xs arbitrary: acc) (auto intro!: rbind_not_RuntimeError)

lemma reduce_not_RuntimeError:
  "(\<And>a b. no_RuntimeError (f a b)) \<Longrightarrow> no_RuntimeError (reduce f xs)"
  by (cases xs) (auto intro!: reduce_from_not_RuntimeError)

lemma comb_op_not_RuntimeError [simp]: "no_RuntimeError (comb_op c A B)"
  by (cases c) auto

lemma comb_op_vec_not_RuntimeError [simp]: "no_RuntimeError (comb_op_vec c A B)"
  by (cases c) auto

lemma K_not_RuntimeError [simp]: "no_RuntimeError (K k X X2 p)"
proof (induction k X X2 p rule: K.induct)
  case (9 c a kern_list X X2 p)
  then show ?case
    by (auto intro!: rbind_not_RuntimeError sequence_not_RuntimeError reduce_not_RuntimeError)
qed (auto intro!: rbind_not_RuntimeError split: option.splits)

lemma Kdiag_not_RuntimeError [simp]: "no_RuntimeError (Kdiag k X p)"
proof (induction k X p rule: Kdiag.induct)
  case (7 c a kern_list X p)
  then show ?case
    by (auto intro!: rbind_not_RuntimeError sequence_not_RuntimeError reduce_not_RuntimeError)
qed (auto intro!: rbind_not_RuntimeError split: option.splits)


lemma hermgauss_not_RuntimeError [simp]: "no_RuntimeError (hermgauss hg n)"
  by (simp add: hermgauss_def)

lemma reshape_rows_not_RuntimeError [simp]: "no_RuntimeError (reshape_rows b flat)"
  by (simp add: reshape_rows_def)

lemma reshape2_not_RuntimeError [simp]: "no_RuntimeError (reshape2 a b flat)"
  by (simp add: reshape2_def)

lemma reshape3_not_RuntimeError [simp]: "no_RuntimeError (reshape3 a b c flat)"
  by (simp add: reshape3_def)

lemma mvhermgauss_not_RuntimeError:
  assumes "\<And>M. no_RuntimeError (chol M)"
  shows "no_RuntimeError (mvhermgauss hg chol means covs H D)"
  unfolding mvhermgauss_def Let_def
  using assms
  by (auto intro!: rbind_not_RuntimeError sequence_not_RuntimeError dest!: set_zip_leftD)

lemma slice_cov_not_RuntimeError [simp]: "no_RuntimeError (slice_cov a cv)"
  unfolding slice_cov_def Let_def
  by (cases "active_dims a") (auto intro!: rbind_not_RuntimeError sequence_not_RuntimeError)

lemma concat_cols_not_RuntimeError [simp]: "no_RuntimeError (concat_cols A B)"
  by (simp add: concat_cols_def)

lemma concat_rows_not_RuntimeError [simp]: "no_RuntimeError (concat_rows A B)"
  by (simp add: concat_rows_def)

lemma batch2_not_RuntimeError:
  "(\<And>a b. no_RuntimeError (f a b)) \<Longrightarrow> no_RuntimeError (batch2 f As Bs)"
  unfolding batch2_def by (auto intro!: sequence_not_RuntimeError)

lemma after_check_RuntimeError:
  assumes "no_RuntimeError body"
  shows "snd (after_check setting k body) = Inl RuntimeError
           \<longleftrightarrow> setting = ''error'' \<or> num_gauss_hermite_points (attrs k) = 0"
  using assms by (auto simp: after_check_def check_quadrature_def no_RuntimeError_def)

lemma after_check_raises:
  "setting = ''error'' \<or> num_gauss_hermite_points (attrs k) = 0 \<Longrightarrow>
     after_check setting k body = ((if setting = ''warn'' then [quadrature_warning k] else []), Inl RuntimeError)"
  by (auto simp: after_check_def check_quadrature_def)

lemma after_check_warns:
  "fst (after_check setting k body) = (if setting = ''warn'' then [quadrature_warning k] else [])"
  by (auto simp: after_check_def check_quadrature_def)


text \<open>
  C8. Each of \<open>eKdiag\<close>, \<open>eKxz\<close>, \<open>exKxz\<close> and \<open>eKzxKxz\<close> raises \<^verbatim>\<open>RuntimeError\<close> exactly when
  the setting is \<^verbatim>\<open>"error"\<close> or \<open>num_gauss_hermite_points\<close> is \<open>0\<close> (given that \<^verbatim>\<open>tf.cholesky\<close>
  raises no \<^verbatim>\<open>RuntimeError\<close> of its own). In that case the exception comes before any
  computation: the outcome is the same for all inputs. The warning is emitted exactly when the
  setting is \<^verbatim>\<open>"warn"\<close>.
\<close>

theorem quadrature_check_raises:
  assumes "\<And>M. chol M \<noteq> Inl RuntimeError"
  shows "(snd (eKdiag setting hg chol k Xmu Xcov) = Inl RuntimeError
            \<longleftrightarrow> setting = ''error'' \<or> num_gauss_hermite_points (attrs k) = 0)
       \<and> (snd (eKxz setting hg chol k Z Xmu Xcov) = Inl RuntimeError
            \<longleftrightarrow> setting = ''error'' \<or> num_gauss_hermite_points (attrs k) = 0)
       \<and> (snd (exKxz setting hg chol k Z Xmu Xcov4) = Inl RuntimeError
            \<longleftrightarrow> setting = ''error'' \<or> num_gauss_hermite_points (attrs k) = 0)
       \<and> (snd (eKzxKxz setting hg chol k Z Xmu Xcov) = Inl RuntimeError
            \<longleftrightarrow> setting = ''error'' \<or> num_gauss_hermite_points (attrs k) = 0)
       \<and> (setting = ''error'' \<or> num_gauss_hermite_points (attrs k) = 0 \<longrightarrow>
            eKdiag setting hg chol k Xmu Xcov
              = ((if setting = ''warn'' then [quadrature_warning k] else []), Inl RuntimeError)
          \<and> eKxz setting hg chol k Z Xmu Xcov
              = ((if setting = ''warn'' then [quadrature_warning k] else []), Inl RuntimeError)
          \<and> exKxz setting hg chol k Z Xmu Xcov4
              = ((if setting = ''warn'' then [quadrature_warning k] else []), Inl RuntimeError)
          \<and> eKzxKxz setting hg chol k Z Xmu Xcov
              = ((if setting = ''warn'' then [quadrature_warning k] else []), Inl RuntimeError))
       \<and> fst (eKdiag setting hg chol k Xmu Xcov)
            = (if setting = ''warn'' then [quadrature_warning k] else [])
       \<and> fst (eKxz setting hg chol k Z Xmu Xcov)
            = (if setting = ''warn'' then [quadrature_warning k] else [])
       \<and> fst (exKxz setting hg chol k Z Xmu Xcov4)
            = (if setting = ''warn'' then [quadrature_warning k] else [])
       \<and> fst (eKzxKxz setting hg chol k Z Xmu Xcov)
            = (if setting = ''warn'' then [quadrature_warning k] else [])"
proof -
  have chol: "\<And>M. no_RuntimeError (chol M)"
    using assms by (simp add: no_RuntimeError_def)
  note mv = mvhermgauss_not_RuntimeError [OF chol]
  have 1: "snd (eKdiag setting hg chol k Xmu Xcov) = Inl RuntimeError
            \<longleftrightarrow> setting = ''error'' \<or> num_gauss_hermite_points (attrs k) = 0"
    unfolding eKdiag_def
    by (rule after_check_RuntimeError)
       (auto intro!: rbind_not_RuntimeError bcast2_not_RuntimeError mv)
  have 2: "snd (eKxz setting hg chol k Z Xmu Xcov) = Inl RuntimeError
            \<longleftrightarrow> setting = ''error'' \<or> num_gauss_hermite_points (attrs k) = 0"
    unfolding eKxz_def Let_def
    by (rule after_check_RuntimeError)
       (auto intro!: rbind_not_RuntimeError bcast2_not_RuntimeError mv)
  have 3: "snd (exKxz setting hg chol k Z Xmu Xcov4) = Inl RuntimeError
            \<longleftrightarrow> setting = ''error'' \<or> num_gauss_hermite_points (attrs k) = 0"
    unfolding exKxz_def Let_def
    by (rule after_check_RuntimeError)
       (auto intro!: rbind_not_RuntimeError bcast2_not_RuntimeError batch2_not_RuntimeError mv)
  have 4: "snd (eKzxKxz setting hg chol k Z Xmu Xcov) = Inl RuntimeError
            \<longleftrightarrow> setting = ''error'' \<or> num_gauss_hermite_points (attrs k) = 0"
    unfolding eKzxKxz_def Let_def
    by (rule after_check_RuntimeError)
       (auto intro!: rbind_not_RuntimeError bcast2_not_RuntimeError mv)
  have 5: "eKdiag setting hg chol k Xmu Xcov
              = ((if setting = ''warn'' then [quadrature_warning k] else []), Inl RuntimeError)"
    if "setting = ''error'' \<or> num_gauss_hermite_points (attrs k) = 0"
    unfolding eKdiag_def using that by (rule after_check_raises)
  have 6: "eKxz setting hg chol k Z Xmu Xcov
              = ((if setting = ''warn'' then [quadrature_warning k] else []), Inl RuntimeError)"
    if "setting = ''error'' \<or> num_gauss_hermite_points (attrs k) = 0"
    unfolding eKxz_def using that by (rule after_check_raises)
  have 7: "exKxz setting hg chol k Z Xmu Xcov4
              = ((if setting = ''warn'' then [quadrature_warning k] else []), Inl RuntimeError)"
    if "setting = ''error'' \<or> num_gauss_hermite_points (attrs k) = 0"
    unfolding exKxz_def using that by (rule after_check_raises)
  have 8: "eKzxKxz setting hg chol k Z Xmu Xcov
              = ((if setting = ''warn'' then [quadrature_warning k] else []), Inl RuntimeError)"
    if "setting = ''error'' \<or> num_gauss_hermite_points (attrs k) = 0"
    unfolding eKzxKxz_def using that by (rule after_check_raises)
  have 9: "fst (eKdiag setting hg chol k Xmu Xcov)
            = (if setting = ''warn'' then [quadrature_warning k] else [])"
    unfolding eKdiag_def by (rule after_check_warns)
  have 10: "fst (eKxz setting hg chol k Z Xmu Xcov)
            = (if setting = ''warn'' then [quadrature_warning k] else [])"
    unfolding eKxz_def by (rule after_check_warns)
  have 11: "fst (exKxz setting hg chol k Z Xmu Xcov4)
            = (if setting = ''warn'' then [quadrature_warning k] else [])"
    unfolding exKxz_def by (rule after_check_warns)
  have 12: "fst (eKzxKxz setting hg chol k Z Xmu Xcov)
            = (if setting = ''warn'' then [quadrature_warning k] else [])"
    unfolding eKzxKxz_def by (rule after_check_warns)
  show ?thesis
    using 1 2 3 4 5 6 7 8 9 10 11 12 by presburger
qed

theorem quadrature_check_raises_witness:
  "snd (eKxz ''error'' (\<lambda>n. ([0], [sqrt pi])) (\<lambda>M. Inr M)
          (Stationary RBF \<lparr>input_dim = 1, active_dims = Slice None (Some 1) None,
             num_gauss_hermite_points = 1, input_size = None\<rparr> 1 (Scalar 1))
          [[0]] [[0]] (CovFull [[[1]]])) = Inl RuntimeError
   \<and> snd (eKxz ''warn'' (\<lambda>n. ([0], [sqrt pi])) (\<lambda>M. Inr M)
          (Stationary RBF \<lparr>input_dim = 1, active_dims = Slice None (Some 1) None,
             num_gauss_hermite_points = 1, input_size = None\<rparr> 1 (Scalar 1))
          [[0]] [[0]] (CovFull [[[1]]])) \<noteq> Inl RuntimeError
   \<and> fst (eKxz ''warn'' (\<lambda>n. ([0], [sqrt pi])) (\<lambda>M. Inr M)
          (Stationary RBF \<lparr>input_dim = 1, active_dims = Slice None (Some 1) None,
             num_gauss_hermite_points = 1, input_size = None\<rparr> 1 (Scalar 1))
          [[0]] [[0]] (CovFull [[[1]]]))
       = [quadrature_warning (Stationary RBF \<lparr>input_dim = 1, active_dims = Slice None (Some 1) None,
             num_gauss_hermite_points = 1, input_size = None\<rparr> 1 (Scalar 1))]"
proof -
  have chol: "\<And>M :: mat. (\<lambda>M. Inr M) M \<noteq> (Inl RuntimeError :: error + mat)"
    by simp
  show ?thesis
    using quadrature_check_raises [of "\<lambda>M. Inr M" "''error''" "\<lambda>n. ([0], [sqrt pi])"
        "Stationary RBF \<lparr>input_dim = 1, active_dims = Slice None (Some 1) None,
             num_gauss_hermite_points = 1, input_size = None\<rparr> 1 (Scalar 1)"
        "[[0]]" "CovFull [[[1]]]" "[[0]]" "[]", OF chol]
      quadrature_check_raises [of "\<lambda>M. Inr M" "''warn''" "\<lambda>n. ([0], [sqrt pi])"
        "Stationary RBF \<lparr>input_dim = 1, active_dims = Slice None (Some 1) None,
             num_gauss_hermite_points = 1, input_size = None\<rparr> 1 (Scalar 1)"
        "[[0]]" "CovFull [[[1]]]" "[[0]]" "[]", OF chol]
    by simp
qed

section \<open>Combinations keep a flat list of kernels\<close>

lemma sequence_eq_Inr: "sequence rs = Inr ys \<longleftrightarrow> rs = map Inr ys"
proof (induction rs arbitrary: ys)
  case Nil
  then show ?case by auto
next
  case (Cons r rs)
  show ?case
  proof (cases r)
    case (Inl e)
    then show ?thesis by (cases ys) auto
  next
    case (Inr x)
    then show ?thesis
      using Cons [of "tl ys"] by (cases "sequence rs"; cases ys) auto
  qed
qed

lemma np_max_Inr:
  assumes "np_max xs = Inr m"
  shows "xs \<noteq> [] \<and> m = Max (set xs)"
proof (cases xs)
  case Nil
  then show ?thesis using assms by simp
next
  case (Cons a list)
  then show ?thesis
    using assms Max.set_eq_fold [of a list] by auto
qed

lemma child_dim_Inr: "child_dim k = Inr d \<Longrightarrow> d = dim_of k"
  unfolding child_dim_def dim_of_def
  by (cases "active_dims (attrs k)") (auto simp: rbind_def split: sum.splits dest: np_max_Inr)

lemma rbind_eq_Inr: "rbind r f = Inr y \<longleftrightarrow> (\<exists>x. r = Inr x \<and> f x = Inr y)"
  by (cases r) (auto simp: rbind_def)

lemma Kern_init_None:
  "Kern_init d None = Inr a \<longleftrightarrow> a = new_attrs d (Slice None (Some (int d)) None)"
  by (auto simp: Kern_init_def)

lemma Combination_init_Inr:
  assumes "Combination_init c ks = Inr k"
  shows "ks \<noteq> [] \<and> k = Combination c (new_attrs (Max (dim_of ` set ks))
            (Slice None (Some (int (Max (dim_of ` set ks)))) None)) (flatten c ks)"
proof -
  from assms obtain dims d a where
    dims: "sequence (map child_dim ks) = Inr dims" and d: "np_max dims = Inr d"
    and a: "Kern_init d None = Inr a" and k: "k = Combination c a (flatten c ks)"
    unfolding Combination_init_def rbind_eq_Inr by auto
  from dims have m: "map child_dim ks = map Inr dims"
    by (simp add: sequence_eq_Inr)
  then have len: "length dims = length ks"
    by (metis length_map)
  have "dims = map dim_of ks"
  proof (rule nth_equalityI)
    show "length dims = length (map dim_of ks)" using len by simp
    fix i assume "i < length dims"
    then have "child_dim (ks ! i) = Inr (dims ! i)"
      using m len by (metis nth_map)
    then show "dims ! i = map dim_of ks ! i"
      using \<open>i < length dims\<close> len by (simp add: child_dim_Inr)
  qed
  moreover from d have "dims \<noteq> []" "d = Max (set dims)"
    by (auto dest: np_max_Inr)
  ultimately have "ks \<noteq> []" "d = Max (dim_of ` set ks)"
    by auto
  with a k show ?thesis
    by (simp add: Kern_init_None)
qed

lemma leaf_inv:
  "Static_init sc d v ad = Inr k \<Longrightarrow> comb_inv k"
  "Stationary_init c d v ls ad ARD = Inr k \<Longrightarrow> comb_inv k"
  "Linear_init d pv ad ARD = Inr k \<Longrightarrow> comb_inv k"
  "Polynomial_init d deg pv off ad ARD = Inr k \<Longrightarrow> comb_inv k"
  "PeriodicKernel_init d per v l ad = Inr k \<Longrightarrow> comb_inv k"
  "Coregion_init d od rk ad = Inr k \<Longrightarrow> comb_inv k"
  by (auto simp: Static_init_def Stationary_init_def Linear_init_def Polynomial_init_def
        PeriodicKernel_init_def Coregion_init_def rbind_eq_Inr comb_inv_def split: if_splits)

lemma is_instance_iff: "is_instance c x \<longleftrightarrow> (\<exists>a ks. x = Combination c a ks)"
  by (cases x) auto

lemma flatten_no_instance:
  assumes "\<forall>x \<in> set ks. comb_inv x"
  shows "\<forall>y \<in> set (flatten c ks). \<not> is_instance c y"
proof
  fix y assume "y \<in> set (flatten c ks)"
  then obtain x where x: "x \<in> set ks" "y \<in> set (if is_instance c x then kern_list x else [x])"
    unfolding flatten_def by auto
  show "\<not> is_instance c y"
  proof (cases "is_instance c x")
    case True
    then obtain a xs where xa: "x = Combination c a xs"
      by (auto simp: is_instance_iff)
    have "comb_inv x" using assms x(1) by simp
    then have "\<forall>z \<in> set xs. \<not> is_instance c z"
      by (simp add: comb_inv_def xa)
    then show ?thesis using x(2) True xa by simp
  next
    case False
    then show ?thesis using x(2) by simp
  qed
qed

lemma flatten_nonempty:
  assumes "\<forall>x \<in> set ks. comb_inv x" "ks \<noteq> []"
  shows "flatten c ks \<noteq> []"
proof -
  obtain x where x: "x \<in> set ks" using assms(2) by (cases ks) auto
  then have "comb_inv x" using assms(1) by simp
  then have "(if is_instance c x then kern_list x else [x]) \<noteq> []"
    by (auto simp: comb_inv_def is_instance_iff)
  moreover have "(if is_instance c x then kern_list x else [x])
      \<in> set (map (\<lambda>k. if is_instance c k then kern_list k else [k]) ks)"
    using x by (simp only: set_map) (rule imageI)
  ultimately show ?thesis
    unfolding flatten_def concat_eq_Nil_conv by blast
qed

lemma dim_of_instance:
  assumes "comb_inv x" "is_instance c x"
  shows "kern_list x \<noteq> [] \<and> dim_of x = Max (dim_of ` set (kern_list x))"
  using assms by (auto simp: comb_inv_def is_instance_iff dim_of_def)

lemma Max_dim_of_flatten:
  assumes "\<forall>x \<in> set ks. comb_inv x" "ks \<noteq> []"
  shows "Max (dim_of ` set (flatten c ks)) = Max (dim_of ` set ks)"
proof (rule antisym)
  have ne: "flatten c ks \<noteq> []" using assms by (rule flatten_nonempty)
  show "Max (dim_of ` set (flatten c ks)) \<le> Max (dim_of ` set ks)"
  proof (rule Max.boundedI)
    show "finite (dim_of ` set (flatten c ks))" by simp
    show "dim_of ` set (flatten c ks) \<noteq> {}" using ne by simp
    fix n assume "n \<in> dim_of ` set (flatten c ks)"
    then obtain y where y: "y \<in> set (flatten c ks)" "n = dim_of y" by auto
    then obtain x where x: "x \<in> set ks" "y \<in> set (if is_instance c x then kern_list x else [x])"
      unfolding flatten_def by auto
    have "dim_of y \<le> dim_of x"
    proof (cases "is_instance c x")
      case True
      then have "dim_of x = Max (dim_of ` set (kern_list x))"
        using assms(1) x(1) dim_of_instance by blast
      moreover have "y \<in> set (kern_list x)" using x(2) True by simp
      ultimately show ?thesis by simp
    next
      case False
      then show ?thesis using x(2) by simp
    qed
    also have "\<dots> \<le> Max (dim_of ` set ks)" using x(1) by simp
    finally show "n \<le> Max (dim_of ` set ks)" using y(2) by simp
  qed
  show "Max (dim_of ` set ks) \<le> Max (dim_of ` set (flatten c ks))"
  proof (rule Max.boundedI)
    show "finite (dim_of ` set ks)" by simp
    show "dim_of ` set ks \<noteq> {}" using assms(2) by simp
    fix n assume "n \<in> dim_of ` set ks"
    then obtain x where x: "x \<in> set ks" "n = dim_of x" by auto
    show "n \<le> Max (dim_of ` set (flatten c ks))"
    proof (cases "is_instance c x")
      case True
      then have d: "kern_list x \<noteq> []" "dim_of x = Max (dim_of ` set (kern_list x))"
        using assms(1) x(1) dim_of_instance by blast+
      then have "dim_of x \<in> dim_of ` set (kern_list x)"
        using Max_in [of "dim_of ` set (kern_list x)"] by simp
      then obtain y where y: "y \<in> set (kern_list x)" "dim_of x = dim_of y" by auto
      then have "y \<in> set (flatten c ks)"
        unfolding flatten_def using x(1) True by auto
      then show ?thesis using y(2) x(2) by simp
    next
      case False
      then have "x \<in> set (flatten c ks)"
        unfolding flatten_def using x(1) by auto
      then show ?thesis using x(2) by simp
    qed
  qed
qed

lemma Combination_init_inv:
  assumes "\<forall>x \<in> set ks. comb_inv x" "Combination_init c ks = Inr k"
  shows "comb_inv k"
proof -
  from assms(2) have ks: "ks \<noteq> []" and k: "k = Combination c (new_attrs (Max (dim_of ` set ks))
            (Slice None (Some (int (Max (dim_of ` set ks)))) None)) (flatten c ks)"
    by (auto dest: Combination_init_Inr)
  show ?thesis
    unfolding k comb_inv_def new_attrs_def
    using flatten_nonempty [OF assms(1) ks] flatten_no_instance [OF assms(1)]
      Max_dim_of_flatten [OF assms(1) ks]
    by simp
qed

lemma constructed_inv: "constructed k \<Longrightarrow> comb_inv k"
proof (induction rule: constructed.induct)
  case (Combination ks cc k)
  then show ?case by (auto intro: Combination_init_inv)
qed (auto dest: leaf_inv)

text \<open>
  C7. A combination built by \<^verbatim>\<open>Combination.__init__\<close> from constructed kernels is a combination of
  the class asked for; no element of its \<open>kern_list\<close> is a combination of that class; and its
  \<open>input_dim\<close> is the largest dimension of a child, over the list given to the constructor and
  over the flattened \<open>kern_list\<close> alike.
\<close>

theorem Combination_flattened:
  assumes "\<forall>x \<in> set ks. constructed x" and "Combination_init c ks = Inr k"
  shows "(\<exists>a. k = Combination c a (kern_list k))
       \<and> (\<forall>x \<in> set (kern_list k). \<not> is_instance c x)
       \<and> input_dim (attrs k) = Max (dim_of ` set ks)
       \<and> input_dim (attrs k) = Max (dim_of ` set (kern_list k))"
proof -
  have inv: "\<forall>x \<in> set ks. comb_inv x"
    using assms(1) by (auto intro: constructed_inv)
  from assms(2) have ks: "ks \<noteq> []" and k: "k = Combination c (new_attrs (Max (dim_of ` set ks))
            (Slice None (Some (int (Max (dim_of ` set ks)))) None)) (flatten c ks)"
    by (auto dest: Combination_init_Inr)
  show ?thesis
    unfolding k new_attrs_def
    using flatten_no_instance [OF inv] Max_dim_of_flatten [OF inv ks]
    by simp
qed


theorem Combination_flattened_witness:
  "Combination_init Add
     [Combination Add (new_attrs 3 (Slice None (Some 3) None))
        [Static White (new_attrs 1 (Slice None (Some 1) None)) 1,
         Linear (new_attrs 2 (Array [0, 2])) (Scalar 1)],
      Stationary RBF (new_attrs 2 (Slice None (Some 2) None)) 1 (Scalar 1)]
   = Inr (Combination Add (new_attrs 3 (Slice None (Some 3) None))
        [Static White (new_attrs 1 (Slice None (Some 1) None)) 1,
         Linear (new_attrs 2 (Array [0, 2])) (Scalar 1),
         Stationary RBF (new_attrs 2 (Slice None (Some 2) None)) 1 (Scalar 1)])
   \<and> \<not> is_instance Add (Static White (new_attrs 1 (Slice None (Some 1) None)) 1)
   \<and> \<not> is_instance Add (Linear (new_attrs 2 (Array [0, 2])) (Scalar 1))
   \<and> \<not> is_instance Add (Stationary RBF (new_attrs 2 (Slice None (Some 2) None)) 1 (Scalar 1))
   \<and> Max (dim_of ` {Static White (new_attrs 1 (Slice None (Some 1) None)) 1,
         Linear (new_attrs 2 (Array [0, 2])) (Scalar 1),
         Stationary RBF (new_attrs 2 (Slice None (Some 2) None)) 1 (Scalar 1)}) = 3"
proof -
  let ?w = "Static White (new_attrs 1 (Slice None (Some 1) None)) 1"
  let ?l = "Linear (new_attrs 2 (Array [0, 2])) (Scalar 1)"
  let ?r = "Stationary RBF (new_attrs 2 (Slice None (Some 2) None)) 1 (Scalar 1)"
  let ?inner = "Combination Add (new_attrs 3 (Slice None (Some 3) None)) [?w, ?l]"
  let ?outer = "Combination Add (new_attrs 3 (Slice None (Some 3) None)) [?w, ?l, ?r]"
  have w: "constructed ?w"
    by (rule constructed.Static [of White 1 1 None])
       (simp add: Static_init_def Kern_init_def rbind_def)
  have l: "constructed ?l"
    by (rule constructed.Linear [of 2 "Scalar 1" "Some (Array [0, 2])" False])
       (simp add: Linear_init_def Kern_init_def rbind_def)
  have r: "constructed ?r"
    by (rule constructed.Stationary [of RBF 2 1 None None False])
       (simp add: Stationary_init_def Kern_init_def rbind_def)
  have inner: "constructed ?inner"
  proof (rule constructed.Combination [of "[?w, ?l]" Add])
    show "\<forall>x \<in> set [?w, ?l]. constructed x"
      using w l by simp
    show "Combination_init Add [?w, ?l] = Inr ?inner"
      by (simp add: Combination_init_def child_dim_def rbind_def new_attrs_def
            Kern_init_def flatten_def)
  qed
  have outer: "Combination_init Add [?inner, ?r] = Inr ?outer"
    by (simp add: Combination_init_def child_dim_def rbind_def new_attrs_def
          Kern_init_def flatten_def)
  have "\<forall>x \<in> set [?inner, ?r]. constructed x"
    using inner r by simp
  from Combination_flattened [OF this outer] show ?thesis
    using outer by (simp add: new_attrs_def)
qed

section \<open>Shapes of kernel matrices\<close>

lemma sequence_map_cong:
  "(\<And>x. x \<in> set xs \<Longrightarrow> f x = Inr (g x)) \<Longrightarrow> sequence (map f xs) = Inr (map g xs)"
  by (induction xs) auto

lemma sequence_length: "sequence rs = Inr ys \<Longrightarrow> length ys = length rs"
  by (simp add: sequence_eq_Inr)

lemma sequence_map_Inr_iff:
  "sequence (map f xs) = Inr ys \<longleftrightarrow> length ys = length xs \<and> (\<forall>i<length xs. f (xs ! i) = Inr (ys ! i))"
  unfolding sequence_eq_Inr by (auto simp: list_eq_iff_nth_eq)

lemma bcast_vec_same_length:
  assumes "length x = length y"
  shows "bcast_vec f x y = Inr (map2 f x y)"
proof -
  have "sequence (map (\<lambda>(a, b). Inr (f a b) :: error + real) (zip x y))
          = Inr (map (\<lambda>(a, b). f a b) (zip x y))"
    by (rule sequence_map_cong) auto
  then show ?thesis
    using assms by (simp add: bcast_vec_def bcast2_def)
qed

lemma has_shape_zip:
  assumes "has_shape n m A" "has_shape n m B" "(a, b) \<in> set (zip A B)"
  shows "length a = m" "length b = m"
  using assms set_zip_leftD [of a b A B] set_zip_rightD [of a b A B]
  by (auto simp: has_shape_def)

lemma bcast_mat_same_shape:
  assumes "has_shape n m A" "has_shape n m B"
  shows "bcast_mat f A B = Inr (map2 (map2 f) A B)"
proof -
  have len: "length A = length B" using assms by (simp add: has_shape_def)
  have "sequence (map (\<lambda>(a, b). bcast_vec f a b) (zip A B))
          = Inr (map (\<lambda>(a, b). map2 f a b) (zip A B))"
  proof (rule sequence_map_cong)
    fix p assume p: "p \<in> set (zip A B)"
    obtain a b where ab: "p = (a, b)" by (cases p)
    then have "length a = length b"
      using has_shape_zip [OF assms] p by simp
    then show "(case p of (a, b) \<Rightarrow> bcast_vec f a b) = Inr (case p of (a, b) \<Rightarrow> map2 f a b)"
      by (simp add: ab bcast_vec_same_length)
  qed
  then show ?thesis
    using len by (simp add: bcast_mat_def bcast2_def)
qed

lemma has_shape_map2:
  assumes "has_shape n m A" "has_shape n m B"
  shows "has_shape n m (map2 (map2 f) A B)"
proof -
  have "length (map2 (map2 f) A B) = n"
    using assms by (simp add: has_shape_def)
  moreover have "length r = m" if "r \<in> set (map2 (map2 f) A B)" for r
  proof -
    from that obtain a b where "(a, b) \<in> set (zip A B)" "r = map2 f a b" by auto
    then show ?thesis using has_shape_zip [OF assms] by simp
  qed
  ultimately show ?thesis by (simp add: has_shape_def)
qed


lemma has_shape_map_mat [simp]: "has_shape n m (map_mat f A) = has_shape n m A"
  by (auto simp: has_shape_def map_mat_def)

lemma length_map_mat [simp]: "length (map_mat f A) = length A"
  by (simp add: map_mat_def)

lemma length_reduce_sum_rows [simp]: "length (reduce_sum_rows A) = length A"
  by (simp add: reduce_sum_rows_def)

lemma length_tf_transpose [simp]: "length (tf_transpose n M) = n"
  by (simp add: tf_transpose_def)

lemma slice_cols_length: "slice_cols ad X = Inr Xs \<Longrightarrow> length Xs = length X"
  by (cases ad) (auto simp: slice_cols_def rbind_eq_Inr select_cols_def split: if_splits)

lemma slice_Inr:
  assumes "slice a X X2 = Inr (Xs, X2s)"
  shows "length Xs = length X
       \<and> length (case X2s of None \<Rightarrow> Xs | Some Y \<Rightarrow> Y) = length (case X2 of None \<Rightarrow> X | Some Y \<Rightarrow> Y)"
  using assms
  by (cases X2) (auto simp: slice_def rbind_eq_Inr split: if_splits dest: slice_cols_length)

lemma maybe_slice_Inr:
  assumes "maybe_slice a p X X2 = Inr (Xs, X2s)"
  shows "length Xs = length X
       \<and> length (case X2s of None \<Rightarrow> Xs | Some Y \<Rightarrow> Y) = length (case X2 of None \<Rightarrow> X | Some Y \<Rightarrow> Y)"
  using assms slice_Inr [of a X X2 Xs X2s]
  by (auto simp: maybe_slice_def split: if_splits)

lemma bcast_param_length: "bcast_param f X p = Inr Y \<Longrightarrow> length Y = length X"
  by (cases p) (auto simp: bcast_param_def dest: sequence_length)

lemma matmul_T_shape: "matmul_T A B = Inr C \<Longrightarrow> has_shape (length A) (length B) C"
  by (auto simp: matmul_T_def has_shape_def split: if_splits)

lemma has_shape_add_col:
  assumes "has_shape n m M" "length c = n"
  shows "has_shape n m (add_col M c)"
proof -
  have "length r = m" if "r \<in> set (add_col M c)" for r
  proof -
    from that obtain row x where "(row, x) \<in> set (zip M c)" "r = map (\<lambda>a. fadd a x) row"
      unfolding add_col_def by auto
    then show ?thesis
      using assms(1) set_zip_leftD [of row x M c] by (auto simp: has_shape_def)
  qed
  then show ?thesis
    using assms by (simp add: has_shape_def add_col_def)
qed

lemma has_shape_add_row:
  assumes "has_shape n m M" "length r = m"
  shows "has_shape n m (add_row M r)"
  using assms by (auto simp: has_shape_def add_row_def)

lemma square_dist_shape:
  assumes "square_dist ls X X2 = Inr R"
  shows "has_shape (length X) (length (case X2 of None \<Rightarrow> X | Some Y \<Rightarrow> Y)) R"
proof (cases X2)
  case None
  from assms obtain Xl M where Xl: "bcast_param fdiv X ls = Inr Xl" and M: "matmul_T Xl Xl = Inr M"
    and R: "R = add_row (add_col (map_mat (\<lambda>x. fmul (- 2) x) M) (reduce_sum_rows (map_mat (\<lambda>x. fmul x x) Xl)))
                  (reduce_sum_rows (map_mat (\<lambda>x. fmul x x) Xl))"
    unfolding square_dist_def Let_def None option.case rbind_eq_Inr sum.inject by blast
  have len: "length Xl = length X" using Xl by (rule bcast_param_length)
  have "has_shape (length X) (length X) M"
    using matmul_T_shape [OF M] len by simp
  then show ?thesis
    unfolding R None
    by (auto intro!: has_shape_add_row has_shape_add_col simp: len)
next
  case (Some Y)
  from assms obtain Xl Yl M where Xl: "bcast_param fdiv X ls = Inr Xl"
    and Yl: "bcast_param fdiv Y ls = Inr Yl" and M: "matmul_T Xl Yl = Inr M"
    and R: "R = add_row (add_col (map_mat (\<lambda>x. fmul (- 2) x) M) (reduce_sum_rows (map_mat (\<lambda>x. fmul x x) Xl)))
                  (reduce_sum_rows (map_mat (\<lambda>x. fmul x x) Yl))"
    unfolding square_dist_def Let_def Some option.case rbind_eq_Inr sum.inject by blast
  have len: "length Xl = length X" "length Yl = length Y"
    using Xl Yl by (auto dest: bcast_param_length)
  have "has_shape (length X) (length Y) M"
    using matmul_T_shape [OF M] len by simp
  then show ?thesis
    unfolding R Some
    by (auto intro!: has_shape_add_row has_shape_add_col simp: len)
qed

lemma euclid_dist_shape:
  assumes "euclid_dist ls X X2 = Inr R"
  shows "has_shape (length X) (length (case X2 of None \<Rightarrow> X | Some Y \<Rightarrow> Y)) R"
  using assms
  by (auto simp: euclid_dist_def rbind_eq_Inr dest: square_dist_shape)

lemma stationary_K_shape:
  assumes "stationary_K c v ls X X2 = Inr R"
  shows "has_shape (length X) (length (case X2 of None \<Rightarrow> X | Some Y \<Rightarrow> Y)) R"
  using assms
  by (cases c) (auto simp: rbind_eq_Inr dest: square_dist_shape euclid_dist_shape)

lemma linear_K_shape:
  assumes "linear_K a v X X2 p = Inr R"
  shows "has_shape (length X) (length (case X2 of None \<Rightarrow> X | Some Y \<Rightarrow> Y)) R"
proof -
  from assms obtain Xs X2s Xv where sl: "maybe_slice a p X X2 = Inr (Xs, X2s)"
    and Xv: "bcast_param fmul Xs v = Inr Xv"
    and R: "matmul_T Xv (case X2s of None \<Rightarrow> Xs | Some Y \<Rightarrow> Y) = Inr R"
    by (auto simp: linear_K_def rbind_eq_Inr split: option.splits)
  show ?thesis
    using matmul_T_shape [OF R] maybe_slice_Inr [OF sl] bcast_param_length [OF Xv] by simp
qed

lemma periodic_K_shape:
  assumes "periodic_K a per v ls X X2 p = Inr R"
  shows "has_shape (length X) (length (case X2 of None \<Rightarrow> X | Some Y \<Rightarrow> Y)) R"
proof -
  from assms obtain Xs X2s where sl: "maybe_slice a p X X2 = Inr (Xs, X2s)"
    and R: "sequence (map (\<lambda>f.
       sequence (map (\<lambda>f2.
         rbind (bcast_vec fsub f f2) (\<lambda>d.
         let r = fsum (map (\<lambda>t.
                   let s = fdiv (fsin (fdiv (fmul (rnd pi) t) per)) ls
                   in fmul s s) d)
         in Inr (fmul v (fexp (fmul (- (1 / 2)) r))))) (case X2s of None \<Rightarrow> Xs | Some Y \<Rightarrow> Y))) Xs) = Inr R"
    by (auto simp: periodic_K_def rbind_eq_Inr Let_def)
  from R have "length R = length Xs"
    and rows: "\<forall>i<length Xs. sequence (map (\<lambda>f2.
         rbind (bcast_vec fsub (Xs ! i) f2) (\<lambda>d.
         let r = fsum (map (\<lambda>t.
                   let s = fdiv (fsin (fdiv (fmul (rnd pi) t) per)) ls
                   in fmul s s) d)
         in Inr (fmul v (fexp (fmul (- (1 / 2)) r))))) (case X2s of None \<Rightarrow> Xs | Some Y \<Rightarrow> Y)) = Inr (R ! i)"
    unfolding sequence_map_Inr_iff Let_def by auto
  then have "\<forall>i<length R. length (R ! i) = length (case X2s of None \<Rightarrow> Xs | Some Y \<Rightarrow> Y)"
    by (auto dest!: sequence_length)
  then show ?thesis
    using \<open>length R = length Xs\<close> maybe_slice_Inr [OF sl]
    by (auto simp: has_shape_def in_set_conv_nth)
qed

lemma tf_gather_Inr:
  "tf_gather xs idx = Inr ys \<longleftrightarrow>
     (\<forall>i \<in> set idx. 0 \<le> i \<and> i < int (length xs)) \<and> ys = map (\<lambda>i. xs ! nat i) idx"
  by (auto simp: tf_gather_def)

lemma tf_gather_length: "tf_gather xs idx = Inr ys \<Longrightarrow> length ys = length idx"
  by (auto simp: tf_gather_def split: if_splits)

lemma col0_length: "col0 X = Inr c \<Longrightarrow> length c = length X"
  by (auto simp: col0_def split: if_splits)

lemma coregion_K_shape:
  assumes "coregion_K a W kappa X X2 = Inr R"
  shows "has_shape (length X) (length (case X2 of None \<Rightarrow> X | Some Y \<Rightarrow> Y)) R"
proof -
  from assms obtain Xs X2s x0 X2i B G where sl: "slice a X X2 = Inr (Xs, X2s)"
    and x0: "col0 Xs = Inr x0"
    and X2i: "(case X2s of None \<Rightarrow> Inr (map tf_cast_int x0)
            | Some Y \<Rightarrow> rbind (col0 Y) (\<lambda>y0. Inr (map tf_cast_int y0))) = Inr X2i"
    and G: "tf_gather B X2i = Inr G"
    and R: "tf_gather (tf_transpose (length B) G) (map tf_cast_int x0) = Inr R"
    by (auto simp: coregion_K_def rbind_eq_Inr Let_def)
  have lx: "length x0 = length X"
    using col0_length [OF x0] slice_Inr [OF sl] by simp
  have l2: "length X2i = length (case X2 of None \<Rightarrow> X | Some Y \<Rightarrow> Y)"
    using X2i slice_Inr [OF sl] lx
    by (cases X2s) (auto simp: rbind_eq_Inr dest: col0_length)
  have lG: "length G = length X2i" using G by (rule tf_gather_length)
  have "length R = length X" using tf_gather_length [OF R] lx by simp
  moreover have "\<forall>r \<in> set R. length r = length G"
  proof
    fix r assume "r \<in> set R"
    then obtain i where i: "i \<in> set (map tf_cast_int x0)" "r = tf_transpose (length B) G ! nat i"
      using R unfolding tf_gather_Inr by auto
    then have "0 \<le> i" "i < int (length B)"
      using R unfolding tf_gather_Inr by auto
    then have "nat i < length B" by simp
    then show "length r = length G"
      unfolding i(2) by (simp add: tf_transpose_def)
  qed
  ultimately show ?thesis
    using lG l2 by (simp add: has_shape_def)
qed


lemma reduce_from_closed:
  assumes "\<And>a b. P a \<Longrightarrow> P b \<Longrightarrow> op a b = Inr (g a b) \<and> P (g a b)"
    and "P acc" and "\<forall>x \<in> set xs. P x"
  shows "reduce_from op acc xs = Inr (foldl g acc xs) \<and> P (foldl g acc xs)"
  using assms(2,3)
proof (induction xs arbitrary: acc)
  case Nil
  then show ?case by simp
next
  case (Cons x xs)
  have "op acc x = Inr (g acc x)" "P (g acc x)"
    using assms(1) [of acc x] Cons.prems by simp_all
  then show ?case
    using Cons.IH [of "g acc x"] Cons.prems by (simp add: rbind_def)
qed

lemma reduce_closed:
  assumes "\<And>a b. P a \<Longrightarrow> P b \<Longrightarrow> op a b = Inr (g a b) \<and> P (g a b)"
    and "xs \<noteq> []" and "\<forall>x \<in> set xs. P x"
  shows "reduce op xs = Inr (foldl g (hd xs) (tl xs)) \<and> P (foldl g (hd xs) (tl xs))"
  using assms(2,3) reduce_from_closed [of P op g "hd xs" "tl xs", OF assms(1)]
  by (cases xs) auto

lemma reduce_from_append:
  "reduce_from op a (xs @ ys) = rbind (reduce_from op a xs) (\<lambda>A. reduce_from op A ys)"
  by (induction xs arbitrary: a) (auto simp: rbind_def split: sum.splits)

lemma reduce_append_left:
  assumes "as \<noteq> []"
  shows "reduce op (as @ bs) = rbind (reduce op as) (\<lambda>A. reduce_from op A bs)"
  using assms by (cases as) (simp_all add: reduce_from_append)

lemma sequence_append:
  "sequence (xs @ ys) = rbind (sequence xs) (\<lambda>a. rbind (sequence ys) (\<lambda>b. Inr (a @ b)))"
  by (induction xs) (auto simp: rbind_def split: sum.splits)

lemma combine_left:
  assumes cl: "\<And>a b. P a \<Longrightarrow> P b \<Longrightarrow> op a b = Inr (g a b) \<and> P (g a b)"
    and r1: "\<And>as. sequence rs1 = Inr as \<Longrightarrow> \<forall>x \<in> set as. P x" "rs1 \<noteq> []"
    and r2: "\<And>bs. sequence rs2 = Inr bs \<Longrightarrow> \<forall>x \<in> set bs. P x"
  shows "rbind (sequence (rs1 @ rs2)) (reduce op)
           = rbind (rbind (sequence rs1) (reduce op)) (\<lambda>A.
             rbind (sequence rs2) (\<lambda>Bs. Inr (foldl g A Bs)))"
proof (cases "sequence rs1")
  case (Inl e)
  then show ?thesis by (simp add: sequence_append rbind_def)
next
  case as: (Inr as)
  have asP: "\<forall>x \<in> set as. P x" "as \<noteq> []"
    using r1 as sequence_length [OF as] by auto
  have A: "reduce op as = Inr (foldl g (hd as) (tl as))" "P (foldl g (hd as) (tl as))"
    using reduce_closed [of P op g as, OF cl asP(2,1)] by simp_all
  show ?thesis
  proof (cases "sequence rs2")
    case (Inl e)
    then show ?thesis
      using as A by (simp add: sequence_append rbind_def)
  next
    case bs: (Inr bs)
    have "\<forall>x \<in> set bs. P x"
      using r2 bs by simp
    from reduce_from_closed [of P op g "foldl g (hd as) (tl as)" bs, OF cl A(2) this]
    have "reduce_from op (foldl g (hd as) (tl as)) bs = Inr (foldl g (foldl g (hd as) (tl as)) bs)"
      by simp
    then show ?thesis
      using as bs A(1) reduce_append_left [OF asP(2), of op bs]
      by (simp add: sequence_append rbind_def)
  qed
qed

lemma comb_op_closed:
  assumes "has_shape n m A" "has_shape n m B"
  shows "comb_op c A B = Inr (map2 (map2 (comb_fun c)) A B) \<and> has_shape n m (map2 (map2 (comb_fun c)) A B)"
  using bcast_mat_same_shape [OF assms] has_shape_map2 [OF assms]
  by (cases c) (simp_all add: tf_add_def tf_mul_def)

lemma comb_op_vec_closed:
  assumes "length a = n" "length b = n"
  shows "comb_op_vec c a b = Inr (map2 (comb_fun c) a b) \<and> length (map2 (comb_fun c) a b) = n"
  using bcast_vec_same_length [of a b] assms
  by (cases c) (simp_all add: tf_add_vec_def tf_mul_vec_def)

lemma K_shape:
  "K k X X2 p = Inr R \<Longrightarrow> has_shape (length X) (length (case X2 of None \<Rightarrow> X | Some Y \<Rightarrow> Y)) R"
proof (induction k X X2 p arbitrary: R rule: K.induct)
  case (1 a variance X X2 p)
  then show ?case
    by (auto simp: has_shape_def tf_diag_def tf_fill_def tf_zeros_def nrows_def split: option.splits)
next
  case (2 a variance X X2 p)
  then show ?case
    by (auto simp: has_shape_def tf_fill2_def nrows_def split: option.splits)
next
  case (3 a variance X X2 p)
  then show ?case
    by (auto simp: has_shape_def tf_fill2_def nrows_def split: option.splits)
next
  case (4 c a variance ls X X2 p)
  then obtain Xs X2s where sl: "maybe_slice a p X X2 = Inr (Xs, X2s)"
    and R: "stationary_K c variance ls Xs X2s = Inr R"
    by (auto simp: rbind_eq_Inr)
  show ?case
    using stationary_K_shape [OF R] maybe_slice_Inr [OF sl] by simp
next
  case (5 a variance X X2 p)
  then show ?case by (simp add: linear_K_shape)
next
  case (6 a variance degree offset X X2 p)
  then show ?case by (auto simp: rbind_eq_Inr dest: linear_K_shape)
next
  case (7 a period variance ls X X2 p)
  then show ?case by (simp add: periodic_K_shape)
next
  case (8 a W kappa X X2 p)
  then show ?case by (auto dest: coregion_K_shape split: option.splits)
next
  case (9 c a kern_list X X2 p)
  let ?M = "length (case X2 of None \<Rightarrow> X | Some Y \<Rightarrow> Y)"
  from 9(2) obtain As where As: "sequence (map (\<lambda>k. K k X X2 None) kern_list) = Inr As"
    and R: "reduce (comb_op c) As = Inr R"
    by (auto simp: rbind_eq_Inr)
  have shapes: "\<forall>A \<in> set As. has_shape (length X) ?M A"
  proof
    fix A assume "A \<in> set As"
    then obtain i where i: "i < length As" "A = As ! i" by (auto simp: in_set_conv_nth)
    then have "i < length kern_list" "K (kern_list ! i) X X2 None = Inr A"
      using As unfolding sequence_map_Inr_iff by auto
    then show "has_shape (length X) ?M A"
      using 9(1) [of "kern_list ! i" A] by simp
  qed
  have "As \<noteq> []" using R by auto
  from reduce_closed [of "has_shape (length X) ?M" "comb_op c" "map2 (map2 (comb_fun c))" As,
      OF comb_op_closed this shapes] R
  show ?case by simp
qed




lemma linear_Kdiag_length:
  assumes "linear_Kdiag a v X p = Inr d"
  shows "length d = length X"
proof -
  from assms obtain Xs X2s Xv where sl: "maybe_slice a p X None = Inr (Xs, X2s)"
    and Xv: "bcast_param fmul (map_mat (\<lambda>x. fmul x x) Xs) v = Inr Xv" and d: "d = reduce_sum_rows Xv"
    by (auto simp: linear_Kdiag_def rbind_eq_Inr)
  show ?thesis
    using maybe_slice_Inr [OF sl] bcast_param_length [OF Xv] d by simp
qed

lemma coregion_Kdiag_length:
  assumes "coregion_Kdiag a W kappa X = Inr d"
  shows "length d = length X"
proof -
  from assms obtain Xs X2s x0 Bdiag where sl: "slice a X None = Inr (Xs, X2s)"
    and x0: "col0 Xs = Inr x0" and d: "tf_gather Bdiag (map tf_cast_int x0) = Inr d"
    by (auto simp: coregion_Kdiag_def rbind_eq_Inr Let_def)
  show ?thesis
    using slice_Inr [OF sl] col0_length [OF x0] tf_gather_length [OF d] by simp
qed

lemma Kdiag_length: "Kdiag k X p = Inr d \<Longrightarrow> length d = length X"
proof (induction k X p arbitrary: d rule: Kdiag.induct)
  case (1 c a variance X p)
  then show ?case by (auto simp: tf_fill_def nrows_def split: option.splits)
next
  case (2 c a variance ls X p)
  then show ?case by (auto simp: tf_fill_def nrows_def)
next
  case (3 a variance X p)
  then show ?case by (simp add: linear_Kdiag_length)
next
  case (4 a variance degree offset X p)
  then show ?case by (auto simp: rbind_eq_Inr dest: linear_Kdiag_length)
next
  case (5 a period variance ls X p)
  then show ?case by (auto simp: tf_fill_def nrows_def)
next
  case (6 a W kappa X p)
  then show ?case by (auto dest: coregion_Kdiag_length split: option.splits)
next
  case (7 c a kern_list X p)
  from 7(2) obtain As where As: "sequence (map (\<lambda>k. Kdiag k X None) kern_list) = Inr As"
    and R: "reduce (comb_op_vec c) As = Inr d"
    by (auto simp: rbind_eq_Inr)
  have shapes: "\<forall>A \<in> set As. length A = length X"
  proof
    fix A assume "A \<in> set As"
    then obtain i where i: "i < length As" "A = As ! i" by (auto simp: in_set_conv_nth)
    then have "i < length kern_list" "Kdiag (kern_list ! i) X None = Inr A"
      using As unfolding sequence_map_Inr_iff by auto
    then show "length A = length X"
      using 7(1) [of "kern_list ! i" A] by simp
  qed
  have "As \<noteq> []" using R by auto
  from reduce_closed [of "\<lambda>v. length v = length X" "comb_op_vec c" "map2 (comb_fun c)" As,
      OF comb_op_vec_closed this shapes]
  have "reduce (comb_op_vec c) As = Inr (foldl (map2 (comb_fun c)) (hd As) (tl As))"
    and len: "length (foldl (map2 (comb_fun c)) (hd As) (tl As)) = length X"
    by blast+
  with R have "d = foldl (map2 (comb_fun c)) (hd As) (tl As)"
    by simp
  then show ?case
    using len by blast
qed

lemma K_operands:
  "rbind (sequence (map (\<lambda>x. K x X X2 None) (if is_instance c k then kern_list k else [k])))
     (reduce (comb_op c)) = K k X X2 None"
proof (cases "is_instance c k")
  case True
  then obtain a ks where "k = Combination c a ks" by (auto simp: is_instance_iff)
  then show ?thesis by simp
next
  case False
  then show ?thesis
    by (cases "K k X X2 None") (simp_all add: rbind_def)
qed

lemma Kdiag_operands:
  "rbind (sequence (map (\<lambda>x. Kdiag x X None) (if is_instance c k then kern_list k else [k])))
     (reduce (comb_op_vec c)) = Kdiag k X None"
proof (cases "is_instance c k")
  case True
  then obtain a ks where "k = Combination c a ks" by (auto simp: is_instance_iff)
  then show ?thesis by simp
next
  case False
  then show ?thesis
    by (cases "Kdiag k X None") (simp_all add: rbind_def)
qed

lemma sequence_map_all:
  assumes "sequence (map f xs) = Inr ys" "\<And>x y. f x = Inr y \<Longrightarrow> P y"
  shows "\<forall>y \<in> set ys. P y"
proof
  fix y assume "y \<in> set ys"
  then obtain i where "i < length ys" "y = ys ! i" by (auto simp: in_set_conv_nth)
  then have "f (xs ! i) = Inr y"
    using assms(1) unfolding sequence_map_Inr_iff by auto
  then show "P y" by (rule assms(2))
qed




lemma sequence_single: "sequence [r] = rbind r (\<lambda>B. Inr [B])"
  by (cases r) (simp_all add: rbind_def)

lemma binary_combination:
  assumes "Combination_init c [k1, k2] = Inr k" and "operands c k1 \<noteq> []"
  shows "(\<exists>a. k = Combination c a (operands c k1 @ operands c k2))
       \<and> K k X X2 p = rbind (K k1 X X2 None) (\<lambda>A.
                        rbind (sequence (map (\<lambda>x. K x X X2 None) (operands c k2))) (\<lambda>Bs.
                        Inr (foldl (map2 (map2 (comb_fun c))) A Bs)))
       \<and> Kdiag k X p = rbind (Kdiag k1 X None) (\<lambda>a.
                        rbind (sequence (map (\<lambda>x. Kdiag x X None) (operands c k2))) (\<lambda>bs.
                        Inr (foldl (map2 (comb_fun c)) a bs)))"
proof -
  define l1 where "l1 = operands c k1"
  define l2 where "l2 = operands c k2"
  define M where "M = length (case X2 of None \<Rightarrow> X | Some Y \<Rightarrow> Y)"
  have ne: "l1 \<noteq> []"
    unfolding l1_def by (rule assms(2))
  obtain a where k: "k = Combination c a (l1 @ l2)"
    using Combination_init_Inr [OF assms(1)] by (simp add: flatten_def l1_def l2_def operands_def)
  have O1: "rbind (sequence (map (\<lambda>x. K x X X2 None) l1)) (reduce (comb_op c)) = K k1 X X2 None"
    unfolding l1_def operands_def by (rule K_operands)
  have Kk: "K k X X2 p = rbind (sequence (map (\<lambda>x. K x X X2 None) l1 @ map (\<lambda>x. K x X X2 None) l2))
              (reduce (comb_op c))"
    unfolding k by simp
  have C: "rbind (sequence (map (\<lambda>x. K x X X2 None) l1 @ map (\<lambda>x. K x X X2 None) l2)) (reduce (comb_op c))
      = rbind (rbind (sequence (map (\<lambda>x. K x X X2 None) l1)) (reduce (comb_op c))) (\<lambda>A.
        rbind (sequence (map (\<lambda>x. K x X X2 None) l2)) (\<lambda>Bs.
          Inr (foldl (map2 (map2 (comb_fun c))) A Bs)))"
  proof (rule combine_left [where P = "has_shape (length X) M"])
    show "comb_op c a b = Inr (map2 (map2 (comb_fun c)) a b) \<and> has_shape (length X) M (map2 (map2 (comb_fun c)) a b)"
      if "has_shape (length X) M a" "has_shape (length X) M b" for a b
      using that by (rule comb_op_closed)
    show "\<forall>x \<in> set as. has_shape (length X) M x"
      if "sequence (map (\<lambda>x. K x X X2 None) l1) = Inr as" for as
      using that unfolding M_def by (rule sequence_map_all) (rule K_shape)
    show "\<forall>x \<in> set bs. has_shape (length X) M x"
      if "sequence (map (\<lambda>x. K x X X2 None) l2) = Inr bs" for bs
      using that unfolding M_def by (rule sequence_map_all) (rule K_shape)
    show "map (\<lambda>x. K x X X2 None) l1 \<noteq> []" using ne by simp
  qed
  have 1: "K k X X2 p = rbind (K k1 X X2 None) (\<lambda>A.
             rbind (sequence (map (\<lambda>x. K x X X2 None) l2)) (\<lambda>Bs.
             Inr (foldl (map2 (map2 (comb_fun c))) A Bs)))"
    unfolding Kk C O1 ..
  have D1: "rbind (sequence (map (\<lambda>x. Kdiag x X None) l1)) (reduce (comb_op_vec c)) = Kdiag k1 X None"
    unfolding l1_def operands_def by (rule Kdiag_operands)
  have Kd: "Kdiag k X p = rbind (sequence (map (\<lambda>x. Kdiag x X None) l1 @ map (\<lambda>x. Kdiag x X None) l2))
              (reduce (comb_op_vec c))"
    unfolding k by simp
  have E: "rbind (sequence (map (\<lambda>x. Kdiag x X None) l1 @ map (\<lambda>x. Kdiag x X None) l2)) (reduce (comb_op_vec c))
      = rbind (rbind (sequence (map (\<lambda>x. Kdiag x X None) l1)) (reduce (comb_op_vec c))) (\<lambda>A.
        rbind (sequence (map (\<lambda>x. Kdiag x X None) l2)) (\<lambda>Bs.
          Inr (foldl (map2 (comb_fun c)) A Bs)))"
  proof (rule combine_left [where P = "\<lambda>v. length v = length X"])
    show "comb_op_vec c a b = Inr (map2 (comb_fun c) a b) \<and> length (map2 (comb_fun c) a b) = length X"
      if "length a = length X" "length b = length X" for a b
      using that by (rule comb_op_vec_closed)
    show "\<forall>x \<in> set as. length x = length X"
      if "sequence (map (\<lambda>x. Kdiag x X None) l1) = Inr as" for as
      using that by (rule sequence_map_all) (rule Kdiag_length)
    show "\<forall>x \<in> set bs. length x = length X"
      if "sequence (map (\<lambda>x. Kdiag x X None) l2) = Inr bs" for bs
      using that by (rule sequence_map_all) (rule Kdiag_length)
    show "map (\<lambda>x. Kdiag x X None) l1 \<noteq> []" using ne by simp
  qed
  have 2: "Kdiag k X p = rbind (Kdiag k1 X None) (\<lambda>a.
             rbind (sequence (map (\<lambda>x. Kdiag x X None) l2)) (\<lambda>bs.
             Inr (foldl (map2 (comb_fun c)) a bs)))"
    unfolding Kd E D1 ..
  have 3: "\<exists>a. k = Combination c a (l1 @ l2)"
    unfolding k by simp
  show ?thesis
    using 1 2 3 unfolding l1_def l2_def by blast
qed

lemma binary_combination_single:
  assumes "Combination_init c [k1, k2] = Inr k" and "operands c k1 \<noteq> []"
    and "\<not> is_instance c k2"
  shows "K k X X2 p = rbind (K k1 X X2 None) (\<lambda>A. rbind (K k2 X X2 None) (\<lambda>B.
                        Inr (map2 (map2 (comb_fun c)) A B)))
       \<and> Kdiag k X p = rbind (Kdiag k1 X None) (\<lambda>a. rbind (Kdiag k2 X None) (\<lambda>b.
                        Inr (map2 (comb_fun c) a b)))"
proof -
  have o: "operands c k2 = [k2]"
    using assms(3) by (simp add: operands_def)
  have 1: "rbind (sequence [K k2 X X2 None]) (\<lambda>Bs. Inr (foldl (map2 (map2 (comb_fun c))) A Bs))
         = rbind (K k2 X X2 None) (\<lambda>B. Inr (map2 (map2 (comb_fun c)) A B))" for A
    by (cases "K k2 X X2 None") (simp_all add: rbind_def)
  have 2: "rbind (sequence [Kdiag k2 X None]) (\<lambda>bs. Inr (foldl (map2 (comb_fun c)) a bs))
         = rbind (Kdiag k2 X None) (\<lambda>b. Inr (map2 (comb_fun c) a b))" for a
    by (cases "Kdiag k2 X None") (simp_all add: rbind_def)
  from binary_combination [OF assms(1,2), of X X2 p]
  have "K k X X2 p = rbind (K k1 X X2 None) (\<lambda>A.
          rbind (sequence [K k2 X X2 None]) (\<lambda>Bs. Inr (foldl (map2 (map2 (comb_fun c))) A Bs)))"
    and "Kdiag k X p = rbind (Kdiag k1 X None) (\<lambda>a.
          rbind (sequence [Kdiag k2 X None]) (\<lambda>bs. Inr (foldl (map2 (comb_fun c)) a bs)))"
    unfolding o list.map by blast+
  then show ?thesis
    unfolding 1 2 by blast
qed

lemma upt_2 [simp]: "[0..<2] = [0, 1]"
  by (simp add: upt_rec)

lemmas slice_eval =
  linear_K_def linear_Kdiag_def maybe_slice_def is_presliced_def slice_def slice_cols_def
  slice_indices_def py_range_def select_cols_def ncols_def new_attrs_def rbind_def
  bcast_param_def matmul_T_def dot_def map_mat_def reduce_sum_rows_def Let_def float_eval

lemmas init_eval =
  kern_add_def kern_mul_def Combination_init_def child_dim_def flatten_def Kern_init_def
  Static_init_def Linear_init_def

section \<open>Sums and products of kernels\<close>

text \<open>
  C3, as amended. \<open>k1 + k2\<close> is an \<open>Add\<close> combination whose list is the kernels of \<open>k1\<close> followed
  by the kernels of \<open>k2\<close> (an operand that is itself an \<open>Add\<close> gives its list, any other operand
  itself). Its \<open>K\<close> adds the matrices of the kernels of \<open>k2\<close> to \<open>k1.K(X, X2)\<close> one after the
  other, from the left, each sum rounded to \<^verbatim>\<open>float64\<close>; its \<open>Kdiag\<close> does the same with the
  diagonals. So when \<open>k2\<close> is not an \<open>Add\<close>, \<open>(k1 + k2).K\<close> is the elementwise rounded sum of
  \<open>k1.K\<close> and \<open>k2.K\<close>, and \<open>(k1 + k2).Kdiag\<close> that of the diagonals. An exception of \<open>k1\<close>, else
  of a kernel of \<open>k2\<close>, is the exception of the sum. \<open>k1\<close> is any kernel but an \<open>Add\<close> with an
  empty list, which no constructor builds.
\<close>

theorem Add_K_left_fold:
  assumes "kern_add k1 k2 = Inr k" and "operands Add k1 \<noteq> []"
  shows "(\<exists>a. k = Combination Add a (operands Add k1 @ operands Add k2))
       \<and> K k X X2 p = rbind (K k1 X X2 None) (\<lambda>A.
                        rbind (sequence (map (\<lambda>x. K x X X2 None) (operands Add k2))) (\<lambda>Bs.
                        Inr (foldl (map2 (map2 fadd)) A Bs)))
       \<and> Kdiag k X p = rbind (Kdiag k1 X None) (\<lambda>a.
                        rbind (sequence (map (\<lambda>x. Kdiag x X None) (operands Add k2))) (\<lambda>bs.
                        Inr (foldl (map2 fadd) a bs)))
       \<and> (\<not> is_instance Add k2 \<longrightarrow>
            K k X X2 p = rbind (K k1 X X2 None) (\<lambda>A. rbind (K k2 X X2 None) (\<lambda>B.
                           Inr (map2 (map2 fadd) A B)))
          \<and> Kdiag k X p = rbind (Kdiag k1 X None) (\<lambda>a. rbind (Kdiag k2 X None) (\<lambda>b.
                           Inr (map2 fadd a b))))"
proof -
  have c: "Combination_init Add [k1, k2] = Inr k"
    using assms(1) by (simp add: kern_add_def)
  show ?thesis
    using binary_combination [OF c assms(2), of X X2 p]
      binary_combination_single [OF c assms(2), of X X2 p]
    by simp
qed

theorem Add_K_left_fold_witness:
  "kern_add (Linear (new_attrs 1 (Slice None (Some 1) None)) (Scalar 1))
            (Static White (new_attrs 1 (Slice None (Some 1) None)) 3)
     = Inr (Combination Add (new_attrs 1 (Slice None (Some 1) None))
             [Linear (new_attrs 1 (Slice None (Some 1) None)) (Scalar 1),
              Static White (new_attrs 1 (Slice None (Some 1) None)) 3])
   \<and> K (Combination Add (new_attrs 1 (Slice None (Some 1) None))
             [Linear (new_attrs 1 (Slice None (Some 1) None)) (Scalar 1),
              Static White (new_attrs 1 (Slice None (Some 1) None)) 3]) [[1], [2]] None None
     = Inr [[4, 2], [2, 7]]
   \<and> Kdiag (Combination Add (new_attrs 1 (Slice None (Some 1) None))
             [Linear (new_attrs 1 (Slice None (Some 1) None)) (Scalar 1),
              Static White (new_attrs 1 (Slice None (Some 1) None)) 3]) [[1], [2]] None
     = Inr [4, 7]"
proof -
  let ?l = "Linear (new_attrs 1 (Slice None (Some 1) None)) (Scalar 1)"
  let ?w = "Static White (new_attrs 1 (Slice None (Some 1) None)) 3"
  let ?k = "Combination Add (new_attrs 1 (Slice None (Some 1) None)) [?l, ?w]"
  have k: "kern_add ?l ?w = Inr ?k"
    by (simp add: init_eval rbind_def new_attrs_def)
  have o: "operands Add ?l \<noteq> []"
    by (simp add: operands_def)
  have w: "\<not> is_instance Add ?w"
    by simp
  have Kl: "K ?l [[1], [2]] None None = Inr [[1, 2], [2, 4]]"
    by (simp add: slice_eval)
  have Kw: "K ?w [[1], [2]] None None = Inr [[3, 0], [0, 3]]"
    by (simp add: tf_diag_def tf_fill_def nrows_def)
  have Dl: "Kdiag ?l [[1], [2]] None = Inr [1, 4]"
    by (simp add: slice_eval)
  have Dw: "Kdiag ?w [[1], [2]] None = Inr [3, 3]"
    by (simp add: tf_fill_def nrows_def)
  from Add_K_left_fold [OF k o, of "[[1], [2]]" None None] w
  have "K ?k [[1], [2]] None None
          = rbind (K ?l [[1], [2]] None None) (\<lambda>A. rbind (K ?w [[1], [2]] None None) (\<lambda>B.
              Inr (map2 (map2 fadd) A B)))"
    and "Kdiag ?k [[1], [2]] None
          = rbind (Kdiag ?l [[1], [2]] None) (\<lambda>a. rbind (Kdiag ?w [[1], [2]] None) (\<lambda>b.
              Inr (map2 fadd a b)))"
    by blast+
  then have "K ?k [[1], [2]] None None = Inr [[4, 2], [2, 7]]"
    and "Kdiag ?k [[1], [2]] None = Inr [4, 7]"
    unfolding Kl Kw Dl Dw by (simp_all add: rbind_def float_eval)
  then show ?thesis
    using k by simp
qed

text \<open>
  C3 as stated fails when \<open>k2\<close> is itself a sum: its kernels are spliced into the list of
  \<open>k1 + k2\<close> and added from the left, and \<^verbatim>\<open>float64\<close> addition is not associative. With constant
  kernels of variance \<open>1\<close>, \<open>3 / 2 ^ 55\<close> and \<open>3 / 2 ^ 55\<close>, \<open>(k1 + (k2 + k3)).K\<close> is
  \<open>(1 + 3 / 2 ^ 55) + 3 / 2 ^ 55\<close>, rounded twice to \<open>1\<close>, while \<open>k1.K + (k2 + k3).K\<close> is
  \<open>1 + 3 / 2 ^ 54\<close>, rounded to \<open>1 + 1 / 2 ^ 52\<close>.
\<close>

theorem Add_K_sum_counterexample:
  "kern_add (Static Constant (new_attrs 1 (Slice None (Some 1) None)) (3 / 2 ^ 55))
            (Static Constant (new_attrs 1 (Slice None (Some 1) None)) (3 / 2 ^ 55))
     = Inr (Combination Add (new_attrs 1 (Slice None (Some 1) None))
             [Static Constant (new_attrs 1 (Slice None (Some 1) None)) (3 / 2 ^ 55),
              Static Constant (new_attrs 1 (Slice None (Some 1) None)) (3 / 2 ^ 55)])
   \<and> kern_add (Static Constant (new_attrs 1 (Slice None (Some 1) None)) 1)
        (Combination Add (new_attrs 1 (Slice None (Some 1) None))
             [Static Constant (new_attrs 1 (Slice None (Some 1) None)) (3 / 2 ^ 55),
              Static Constant (new_attrs 1 (Slice None (Some 1) None)) (3 / 2 ^ 55)])
     = Inr (Combination Add (new_attrs 1 (Slice None (Some 1) None))
             [Static Constant (new_attrs 1 (Slice None (Some 1) None)) 1,
              Static Constant (new_attrs 1 (Slice None (Some 1) None)) (3 / 2 ^ 55),
              Static Constant (new_attrs 1 (Slice None (Some 1) None)) (3 / 2 ^ 55)])
   \<and> K (Combination Add (new_attrs 1 (Slice None (Some 1) None))
             [Static Constant (new_attrs 1 (Slice None (Some 1) None)) 1,
              Static Constant (new_attrs 1 (Slice None (Some 1) None)) (3 / 2 ^ 55),
              Static Constant (new_attrs 1 (Slice None (Some 1) None)) (3 / 2 ^ 55)])
        [[0]] None None = Inr [[1]]
   \<and> K (Static Constant (new_attrs 1 (Slice None (Some 1) None)) 1) [[0]] None None = Inr [[1]]
   \<and> K (Combination Add (new_attrs 1 (Slice None (Some 1) None))
             [Static Constant (new_attrs 1 (Slice None (Some 1) None)) (3 / 2 ^ 55),
              Static Constant (new_attrs 1 (Slice None (Some 1) None)) (3 / 2 ^ 55)])
        [[0]] None None = Inr [[3 / 2 ^ 54]]
   \<and> tf_add [[1]] [[3 / 2 ^ 54]] = Inr [[1 + 1 / 2 ^ 52]]
   \<and> Kdiag (Combination Add (new_attrs 1 (Slice None (Some 1) None))
             [Static Constant (new_attrs 1 (Slice None (Some 1) None)) 1,
              Static Constant (new_attrs 1 (Slice None (Some 1) None)) (3 / 2 ^ 55),
              Static Constant (new_attrs 1 (Slice None (Some 1) None)) (3 / 2 ^ 55)])
        [[0]] None = Inr [1]
   \<and> Kdiag (Static Constant (new_attrs 1 (Slice None (Some 1) None)) 1) [[0]] None = Inr [1]
   \<and> Kdiag (Combination Add (new_attrs 1 (Slice None (Some 1) None))
             [Static Constant (new_attrs 1 (Slice None (Some 1) None)) (3 / 2 ^ 55),
              Static Constant (new_attrs 1 (Slice None (Some 1) None)) (3 / 2 ^ 55)])
        [[0]] None = Inr [3 / 2 ^ 54]
   \<and> tf_add_vec [1] [3 / 2 ^ 54] = Inr [1 + 1 / 2 ^ 52]"
proof -
  let ?a = "new_attrs 1 (Slice None (Some 1) None)"
  have r1: "fadd 1 (3 / 2 ^ 55) = 1"
    unfolding fadd_def by (subst rnd_eval [of 0]) (simp_all add: scale2_def round_even_def)
  have r2: "fadd (3 / 2 ^ 55) (3 / 2 ^ 55) = 3 / 2 ^ 54"
    unfolding fadd_def by (subst rnd_eval [of "- 53"]) (simp_all add: scale2_def round_even_def)
  have r3: "fadd 1 (3 / 2 ^ 54) = 1 + 1 / 2 ^ 52"
    unfolding fadd_def by (subst rnd_eval [of 0]) (simp_all add: scale2_def round_even_def)
  have i1: "kern_add (Static Constant ?a y) (Static Constant ?a z)
              = Inr (Combination Add ?a [Static Constant ?a y, Static Constant ?a z])" for y z
    by (simp add: init_eval rbind_def new_attrs_def)
  have i2: "kern_add (Static Constant ?a x) (Combination Add ?a [Static Constant ?a y, Static Constant ?a z])
              = Inr (Combination Add ?a [Static Constant ?a x, Static Constant ?a y, Static Constant ?a z])"
    for x y z
    by (simp add: init_eval rbind_def new_attrs_def)
  have K1: "K (Static Constant ?a x) [[0]] None None = Inr [[x]]" for x
    by (simp add: tf_fill2_def nrows_def)
  have K2: "K (Combination Add ?a [Static Constant ?a y, Static Constant ?a z]) [[0]] None None
              = Inr [[fadd y z]]" for y z
    by (simp add: tf_fill2_def nrows_def rbind_def tf_add_def bcast_mat_def bcast_vec_def bcast2_def)
  have K3: "K (Combination Add ?a [Static Constant ?a x, Static Constant ?a y, Static Constant ?a z])
              [[0]] None None = Inr [[fadd (fadd x y) z]]" for x y z
    by (simp add: tf_fill2_def nrows_def rbind_def tf_add_def bcast_mat_def bcast_vec_def bcast2_def)
  have T: "tf_add [[x]] [[y]] = Inr [[fadd x y]]" for x y
    by (simp add: rbind_def tf_add_def bcast_mat_def bcast_vec_def bcast2_def)
  have D1: "Kdiag (Static Constant ?a x) [[0]] None = Inr [x]" for x
    by (simp add: tf_fill_def nrows_def)
  have D2: "Kdiag (Combination Add ?a [Static Constant ?a y, Static Constant ?a z]) [[0]] None
              = Inr [fadd y z]" for y z
    by (simp add: tf_fill_def nrows_def rbind_def tf_add_vec_def bcast_vec_def bcast2_def)
  have D3: "Kdiag (Combination Add ?a [Static Constant ?a x, Static Constant ?a y, Static Constant ?a z])
              [[0]] None = Inr [fadd (fadd x y) z]" for x y z
    by (simp add: tf_fill_def nrows_def rbind_def tf_add_vec_def bcast_vec_def bcast2_def)
  have V: "tf_add_vec [x] [y] = Inr [fadd x y]" for x y
    by (simp add: rbind_def tf_add_vec_def bcast_vec_def bcast2_def)
  show ?thesis
    unfolding i1 i2 K1 K2 K3 T D1 D2 D3 V r1 r2 r3 by blast
qed

text \<open>
  C4, as amended. \<open>k1 * k2\<close> is a \<open>Prod\<close> combination whose list is the kernels of \<open>k1\<close>
  followed by the kernels of \<open>k2\<close> (an operand that is itself a \<open>Prod\<close> gives its list, any
  other operand itself). Its \<open>K\<close> multiplies \<open>k1.K(X, X2)\<close> by the matrices of the kernels of
  \<open>k2\<close> one after the other, from the left, each product rounded to \<^verbatim>\<open>float64\<close>; its \<open>Kdiag\<close>
  does the same with the diagonals. So when \<open>k2\<close> is not a \<open>Prod\<close>, \<open>(k1 * k2).K\<close> is the
  elementwise rounded product of \<open>k1.K\<close> and \<open>k2.K\<close>, and \<open>(k1 * k2).Kdiag\<close> that of the
  diagonals. \<open>k1\<close> is any kernel but a \<open>Prod\<close> with an empty list, which no constructor builds.
\<close>

theorem Prod_K_left_fold:
  assumes "kern_mul k1 k2 = Inr k" and "operands Prod k1 \<noteq> []"
  shows "(\<exists>a. k = Combination Prod a (operands Prod k1 @ operands Prod k2))
       \<and> K k X X2 p = rbind (K k1 X X2 None) (\<lambda>A.
                        rbind (sequence (map (\<lambda>x. K x X X2 None) (operands Prod k2))) (\<lambda>Bs.
                        Inr (foldl (map2 (map2 fmul)) A Bs)))
       \<and> Kdiag k X p = rbind (Kdiag k1 X None) (\<lambda>a.
                        rbind (sequence (map (\<lambda>x. Kdiag x X None) (operands Prod k2))) (\<lambda>bs.
                        Inr (foldl (map2 fmul) a bs)))
       \<and> (\<not> is_instance Prod k2 \<longrightarrow>
            K k X X2 p = rbind (K k1 X X2 None) (\<lambda>A. rbind (K k2 X X2 None) (\<lambda>B.
                           Inr (map2 (map2 fmul) A B)))
          \<and> Kdiag k X p = rbind (Kdiag k1 X None) (\<lambda>a. rbind (Kdiag k2 X None) (\<lambda>b.
                           Inr (map2 fmul a b))))"
proof -
  have c: "Combination_init Prod [k1, k2] = Inr k"
    using assms(1) by (simp add: kern_mul_def)
  show ?thesis
    using binary_combination [OF c assms(2), of X X2 p]
      binary_combination_single [OF c assms(2), of X X2 p]
    by simp
qed

theorem Prod_K_left_fold_witness:
  "kern_mul (Linear (new_attrs 1 (Slice None (Some 1) None)) (Scalar 1))
            (Static Constant (new_attrs 1 (Slice None (Some 1) None)) 3)
     = Inr (Combination Prod (new_attrs 1 (Slice None (Some 1) None))
             [Linear (new_attrs 1 (Slice None (Some 1) None)) (Scalar 1),
              Static Constant (new_attrs 1 (Slice None (Some 1) None)) 3])
   \<and> K (Combination Prod (new_attrs 1 (Slice None (Some 1) None))
             [Linear (new_attrs 1 (Slice None (Some 1) None)) (Scalar 1),
              Static Constant (new_attrs 1 (Slice None (Some 1) None)) 3]) [[1], [2]] None None
     = Inr [[3, 6], [6, 12]]
   \<and> Kdiag (Combination Prod (new_attrs 1 (Slice None (Some 1) None))
             [Linear (new_attrs 1 (Slice None (Some 1) None)) (Scalar 1),
              Static Constant (new_attrs 1 (Slice None (Some 1) None)) 3]) [[1], [2]] None
     = Inr [3, 12]"
proof -
  let ?l = "Linear (new_attrs 1 (Slice None (Some 1) None)) (Scalar 1)"
  let ?w = "Static Constant (new_attrs 1 (Slice None (Some 1) None)) 3"
  let ?k = "Combination Prod (new_attrs 1 (Slice None (Some 1) None)) [?l, ?w]"
  have k: "kern_mul ?l ?w = Inr ?k"
    by (simp add: init_eval rbind_def new_attrs_def)
  have o: "operands Prod ?l \<noteq> []"
    by (simp add: operands_def)
  have w: "\<not> is_instance Prod ?w"
    by simp
  have Kl: "K ?l [[1], [2]] None None = Inr [[1, 2], [2, 4]]"
    by (simp add: slice_eval)
  have Kw: "K ?w [[1], [2]] None None = Inr [[3, 3], [3, 3]]"
    by (simp add: tf_fill2_def nrows_def)
  have Dl: "Kdiag ?l [[1], [2]] None = Inr [1, 4]"
    by (simp add: slice_eval)
  have Dw: "Kdiag ?w [[1], [2]] None = Inr [3, 3]"
    by (simp add: tf_fill_def nrows_def)
  from Prod_K_left_fold [OF k o, of "[[1], [2]]" None None] w
  have "K ?k [[1], [2]] None None
          = rbind (K ?l [[1], [2]] None None) (\<lambda>A. rbind (K ?w [[1], [2]] None None) (\<lambda>B.
              Inr (map2 (map2 fmul) A B)))"
    and "Kdiag ?k [[1], [2]] None
          = rbind (Kdiag ?l [[1], [2]] None) (\<lambda>a. rbind (Kdiag ?w [[1], [2]] None) (\<lambda>b.
              Inr (map2 fmul a b)))"
    by blast+
  then have "K ?k [[1], [2]] None None = Inr [[3, 6], [6, 12]]"
    and "Kdiag ?k [[1], [2]] None = Inr [3, 12]"
    unfolding Kl Kw Dl Dw by (simp_all add: rbind_def float_eval)
  then show ?thesis
    using k by simp
qed

text \<open>
  C4 as stated fails when \<open>k2\<close> is itself a product, for the same reason: \<^verbatim>\<open>float64\<close>
  multiplication is not associative. With constant kernels of variance \<open>1 + 1 / 2 ^ 52\<close>, \<open>5 / 4\<close>
  and \<open>5 / 4\<close>, \<open>(k1 * (k2 * k3)).K\<close> is \<open>25 / 16 + 1 / 2 ^ 52\<close> and the product of \<open>k1.K\<close> and
  \<open>(k2 * k3).K\<close> is \<open>25 / 16 + 1 / 2 ^ 51\<close>.
\<close>

theorem Prod_K_product_counterexample:
  "kern_mul (Static Constant (new_attrs 1 (Slice None (Some 1) None)) (5 / 4))
            (Static Constant (new_attrs 1 (Slice None (Some 1) None)) (5 / 4))
     = Inr (Combination Prod (new_attrs 1 (Slice None (Some 1) None))
             [Static Constant (new_attrs 1 (Slice None (Some 1) None)) (5 / 4),
              Static Constant (new_attrs 1 (Slice None (Some 1) None)) (5 / 4)])
   \<and> kern_mul (Static Constant (new_attrs 1 (Slice None (Some 1) None)) (1 + 1 / 2 ^ 52))
        (Combination Prod (new_attrs 1 (Slice None (Some 1) None))
             [Static Constant (new_attrs 1 (Slice None (Some 1) None)) (5 / 4),
              Static Constant (new_attrs 1 (Slice None (Some 1) None)) (5 / 4)])
     = Inr (Combination Prod (new_attrs 1 (Slice None (Some 1) None))
             [Static Constant (new_attrs 1 (Slice None (Some 1) None)) (1 + 1 / 2 ^ 52),
              Static Constant (new_attrs 1 (Slice None (Some 1) None)) (5 / 4),
              Static Constant (new_attrs 1 (Slice None (Some 1) None)) (5 / 4)])
   \<and> K (Combination Prod (new_attrs 1 (Slice None (Some 1) None))
             [Static Constant (new_attrs 1 (Slice None (Some 1) None)) (1 + 1 / 2 ^ 52),
              Static Constant (new_attrs 1 (Slice None (Some 1) None)) (5 / 4),
              Static Constant (new_attrs 1 (Slice None (Some 1) None)) (5 / 4)])
        [[0]] None None = Inr [[25 / 16 + 1 / 2 ^ 52]]
   \<and> K (Static Constant (new_attrs 1 (Slice None (Some 1) None)) (1 + 1 / 2 ^ 52)) [[0]] None None
       = Inr [[1 + 1 / 2 ^ 52]]
   \<and> K (Combination Prod (new_attrs 1 (Slice None (Some 1) None))
             [Static Constant (new_attrs 1 (Slice None (Some 1) None)) (5 / 4),
              Static Constant (new_attrs 1 (Slice None (Some 1) None)) (5 / 4)])
        [[0]] None None = Inr [[25 / 16]]
   \<and> tf_mul [[1 + 1 / 2 ^ 52]] [[25 / 16]] = Inr [[25 / 16 + 1 / 2 ^ 51]]
   \<and> Kdiag (Combination Prod (new_attrs 1 (Slice None (Some 1) None))
             [Static Constant (new_attrs 1 (Slice None (Some 1) None)) (1 + 1 / 2 ^ 52),
              Static Constant (new_attrs 1 (Slice None (Some 1) None)) (5 / 4),
              Static Constant (new_attrs 1 (Slice None (Some 1) None)) (5 / 4)])
        [[0]] None = Inr [25 / 16 + 1 / 2 ^ 52]
   \<and> Kdiag (Static Constant (new_attrs 1 (Slice None (Some 1) None)) (1 + 1 / 2 ^ 52)) [[0]] None
       = Inr [1 + 1 / 2 ^ 52]
   \<and> Kdiag (Combination Prod (new_attrs 1 (Slice None (Some 1) None))
             [Static Constant (new_attrs 1 (Slice None (Some 1) None)) (5 / 4),
              Static Constant (new_attrs 1 (Slice None (Some 1) None)) (5 / 4)])
        [[0]] None = Inr [25 / 16]
   \<and> tf_mul_vec [1 + 1 / 2 ^ 52] [25 / 16] = Inr [25 / 16 + 1 / 2 ^ 51]"
proof -
  let ?a = "new_attrs 1 (Slice None (Some 1) None)"
  have r1: "fmul (1 + 1 / 2 ^ 52) (5 / 4) = 5 / 4 + 1 / 2 ^ 52"
    unfolding fmul_def by (subst rnd_eval [of 0]) (simp_all add: scale2_def round_even_def)
  have r2: "fmul (5 / 4 + 1 / 2 ^ 52) (5 / 4) = 25 / 16 + 1 / 2 ^ 52"
    unfolding fmul_def by (subst rnd_eval [of 0]) (simp_all add: scale2_def round_even_def)
  have r3: "fmul (5 / 4) (5 / 4) = 25 / 16"
    unfolding fmul_def by (subst rnd_eval [of 0]) (simp_all add: scale2_def round_even_def)
  have r4: "fmul (1 + 1 / 2 ^ 52) (25 / 16) = 25 / 16 + 1 / 2 ^ 51"
    unfolding fmul_def by (subst rnd_eval [of 0]) (simp_all add: scale2_def round_even_def)
  have i1: "kern_mul (Static Constant ?a y) (Static Constant ?a z)
              = Inr (Combination Prod ?a [Static Constant ?a y, Static Constant ?a z])" for y z
    by (simp add: init_eval rbind_def new_attrs_def)
  have i2: "kern_mul (Static Constant ?a x) (Combination Prod ?a [Static Constant ?a y, Static Constant ?a z])
              = Inr (Combination Prod ?a [Static Constant ?a x, Static Constant ?a y, Static Constant ?a z])"
    for x y z
    by (simp add: init_eval rbind_def new_attrs_def)
  have K1: "K (Static Constant ?a x) [[0]] None None = Inr [[x]]" for x
    by (simp add: tf_fill2_def nrows_def)
  have K2: "K (Combination Prod ?a [Static Constant ?a y, Static Constant ?a z]) [[0]] None None
              = Inr [[fmul y z]]" for y z
    by (simp add: tf_fill2_def nrows_def rbind_def tf_mul_def bcast_mat_def bcast_vec_def bcast2_def)
  have K3: "K (Combination Prod ?a [Static Constant ?a x, Static Constant ?a y, Static Constant ?a z])
              [[0]] None None = Inr [[fmul (fmul x y) z]]" for x y z
    by (simp add: tf_fill2_def nrows_def rbind_def tf_mul_def bcast_mat_def bcast_vec_def bcast2_def)
  have T: "tf_mul [[x]] [[y]] = Inr [[fmul x y]]" for x y
    by (simp add: rbind_def tf_mul_def bcast_mat_def bcast_vec_def bcast2_def)
  have D1: "Kdiag (Static Constant ?a x) [[0]] None = Inr [x]" for x
    by (simp add: tf_fill_def nrows_def)
  have D2: "Kdiag (Combination Prod ?a [Static Constant ?a y, Static Constant ?a z]) [[0]] None
              = Inr [fmul y z]" for y z
    by (simp add: tf_fill_def nrows_def rbind_def tf_mul_vec_def bcast_vec_def bcast2_def)
  have D3: "Kdiag (Combination Prod ?a [Static Constant ?a x, Static Constant ?a y, Static Constant ?a z])
              [[0]] None = Inr [fmul (fmul x y) z]" for x y z
    by (simp add: tf_fill_def nrows_def rbind_def tf_mul_vec_def bcast_vec_def bcast2_def)
  have V: "tf_mul_vec [x] [y] = Inr [fmul x y]" for x y
    by (simp add: rbind_def tf_mul_vec_def bcast_vec_def bcast2_def)
  show ?thesis
    unfolding i1 i2 K1 K2 K3 T D1 D2 D3 V r1 r2 r3 r4 by blast
qed

section \<open>The squared distance of stationary kernels\<close>













section \<open>Active dimensions and the columns a kernel reads\<close>

lemma slice_cong:
  assumes "slice_cols (active_dims a) X = slice_cols (active_dims a) X'"
    and "case X2 of None \<Rightarrow> X2' = None
         | Some Y \<Rightarrow> (case X2' of None \<Rightarrow> False
             | Some Y' \<Rightarrow> slice_cols (active_dims a) Y = slice_cols (active_dims a) Y')"
  shows "slice a X X2 = slice a X' X2'"
  using assms by (auto simp: slice_def split: option.splits)

lemma maybe_slice_cong:
  assumes "slice_cols (active_dims a) X = slice_cols (active_dims a) X'"
    and "case X2 of None \<Rightarrow> X2' = None
         | Some Y \<Rightarrow> (case X2' of None \<Rightarrow> False
             | Some Y' \<Rightarrow> slice_cols (active_dims a) Y = slice_cols (active_dims a) Y')"
    and "\<not> is_presliced p"
  shows "maybe_slice a p X X2 = maybe_slice a p X' X2'"
  using slice_cong [OF assms(1,2)] assms(3) by (simp add: maybe_slice_def)

text \<open>
  C5, as amended. \<open>K(X, X2)\<close> and \<open>Kdiag(X)\<close>, called without \<^verbatim>\<open>presliced=True\<close>, depend only on
  the number of rows and on the columns that \<open>active_dims\<close> selects: for a kernel that is not
  a combination its own \<open>active_dims\<close>, for a combination the \<open>active_dims\<close> of the kernels in
  its list. Inputs that are the same in this sense give the same result, or the same exception.
\<close>

theorem active_dims_noninterference:
  assumes "same_inputs k X X'" and "same_inputs2 k X2 X2'" and "\<not> is_presliced p"
  shows "K k X X2 p = K k X' X2' p \<and> Kdiag k X p = Kdiag k X' p"
  using assms
proof (induction k arbitrary: p)
  case (Static c a v)
  then show ?case
    by (cases c) (auto simp: same_inputs2_def nrows_def split: option.splits)
next
  case (Stationary c a v ls)
  then have "maybe_slice a p X X2 = maybe_slice a p X' X2'"
    by (intro maybe_slice_cong) (auto simp: same_inputs2_def split: option.splits)
  then show ?case
    using Stationary by (simp add: nrows_def)
next
  case (Linear a v)
  then have "maybe_slice a p X X2 = maybe_slice a p X' X2'"
    and "maybe_slice a p X None = maybe_slice a p X' None"
    by (auto intro!: maybe_slice_cong simp: same_inputs2_def split: option.splits)
  then show ?case
    by (simp add: linear_K_def linear_Kdiag_def)
next
  case (Polynomial a v d off)
  then have "maybe_slice a p X X2 = maybe_slice a p X' X2'"
    and "maybe_slice a p X None = maybe_slice a p X' None"
    by (auto intro!: maybe_slice_cong simp: same_inputs2_def split: option.splits)
  then show ?case
    by (simp add: linear_K_def linear_Kdiag_def)
next
  case (PeriodicKernel a per v ls)
  then have "maybe_slice a p X X2 = maybe_slice a p X' X2'"
    by (intro maybe_slice_cong) (auto simp: same_inputs2_def split: option.splits)
  then show ?case
    using PeriodicKernel by (simp add: periodic_K_def nrows_def)
next
  case (Coregion a W kappa)
  then have "slice a X X2 = slice a X' X2'" and "slice a X None = slice a X' None"
    by (auto intro!: slice_cong simp: same_inputs2_def split: option.splits)
  then show ?case
    by (simp add: coregion_K_def coregion_Kdiag_def split: option.splits)
next
  case (Combination c a ks)
  have "same_inputs2 k X2 X2'" if "k \<in> set ks" for k
    using Combination.prems(2) that by (auto simp: same_inputs2_def split: option.splits)
  then have "K k X X2 None = K k X' X2' None \<and> Kdiag k X None = Kdiag k X' None" if "k \<in> set ks" for k
    using Combination.IH [of k None] Combination.prems(1) that by (simp add: is_presliced_def)
  then have m: "map (\<lambda>k. K k X X2 None) ks = map (\<lambda>k. K k X' X2' None) ks"
    "map (\<lambda>k. Kdiag k X None) ks = map (\<lambda>k. Kdiag k X' None) ks"
    by simp_all
  show ?case
    by (simp only: K.simps Kdiag.simps m)
qed


theorem active_dims_noninterference_witness:
  "K (Combination Add (new_attrs 1 (Slice None (Some 1) None))
        [Linear (new_attrs 1 (Slice (Some 1) (Some 2) None)) (Scalar 1)])
     [[0, 0], [0, 1]] None None
   = K (Combination Add (new_attrs 1 (Slice None (Some 1) None))
        [Linear (new_attrs 1 (Slice (Some 1) (Some 2) None)) (Scalar 1)])
     [[5, 0], [7, 1]] None None
   \<and> Kdiag (Combination Add (new_attrs 1 (Slice None (Some 1) None))
        [Linear (new_attrs 1 (Slice (Some 1) (Some 2) None)) (Scalar 1)])
     [[0, 0], [0, 1]] None
   = Kdiag (Combination Add (new_attrs 1 (Slice None (Some 1) None))
        [Linear (new_attrs 1 (Slice (Some 1) (Some 2) None)) (Scalar 1)])
     [[5, 0], [7, 1]] None"
proof -
  let ?k = "Combination Add (new_attrs 1 (Slice None (Some 1) None))
        [Linear (new_attrs 1 (Slice (Some 1) (Some 2) None)) (Scalar 1)]"
  have 1: "same_inputs ?k [[0, 0], [0, 1]] [[5, 0], [7, 1]]"
    by (simp add: slice_eval)
  have 2: "same_inputs2 ?k None None"
    by (simp add: same_inputs2_def)
  have 3: "\<not> is_presliced None"
    by (simp add: is_presliced_def)
  from active_dims_noninterference [OF 1 2 3] show ?thesis .
qed

text \<open>
  C5 as stated fails for a combination: its own \<open>active_dims\<close> is \<^verbatim>\<open>slice(input_dim)\<close>, but a
  child with \<^verbatim>\<open>active_dims = slice(1, 2)\<close> reads column 1. The two inputs below agree on column 0,
  the column the combination's \<open>active_dims\<close> selects, and give different \<open>K\<close> and \<open>Kdiag\<close>.
\<close>

theorem active_dims_counterexample:
  "Linear_init 1 (Scalar 1) (Some (Slice (Some 1) (Some 2) None)) False
     = Inr (Linear (new_attrs 1 (Slice (Some 1) (Some 2) None)) (Scalar 1))
   \<and> Combination_init Add [Linear (new_attrs 1 (Slice (Some 1) (Some 2) None)) (Scalar 1)]
     = Inr (Combination Add (new_attrs 1 (Slice None (Some 1) None))
             [Linear (new_attrs 1 (Slice (Some 1) (Some 2) None)) (Scalar 1)])
   \<and> slice_cols (Slice None (Some 1) None) [[0, 0], [0, 1]] = Inr [[0], [0]]
   \<and> slice_cols (Slice None (Some 1) None) [[0, 0], [0, 0]] = Inr [[0], [0]]
   \<and> K (Combination Add (new_attrs 1 (Slice None (Some 1) None))
             [Linear (new_attrs 1 (Slice (Some 1) (Some 2) None)) (Scalar 1)])
        [[0, 0], [0, 1]] None None = Inr [[0, 0], [0, 1]]
   \<and> K (Combination Add (new_attrs 1 (Slice None (Some 1) None))
             [Linear (new_attrs 1 (Slice (Some 1) (Some 2) None)) (Scalar 1)])
        [[0, 0], [0, 0]] None None = Inr [[0, 0], [0, 0]]
   \<and> Kdiag (Combination Add (new_attrs 1 (Slice None (Some 1) None))
             [Linear (new_attrs 1 (Slice (Some 1) (Some 2) None)) (Scalar 1)])
        [[0, 0], [0, 1]] None = Inr [0, 1]
   \<and> Kdiag (Combination Add (new_attrs 1 (Slice None (Some 1) None))
             [Linear (new_attrs 1 (Slice (Some 1) (Some 2) None)) (Scalar 1)])
        [[0, 0], [0, 0]] None = Inr [0, 0]"
  by (simp add: slice_eval Linear_init_def Kern_init_def Combination_init_def child_dim_def
        flatten_def)

section \<open>Positive semi-definite kernel matrices\<close>









section \<open>Expectations of the coregionalisation kernel\<close>

lemma rbind_raises:
  assumes "\<And>x. \<exists>e. f x = Inl e"
  shows "\<exists>e. rbind r f = Inl e"
  using assms by (cases r) (auto simp: rbind_def)

lemma case_prod_raises:
  assumes "\<And>a b. \<exists>e. f a b = Inl e"
  shows "\<exists>e. (case p of (a, b) \<Rightarrow> f a b) = Inl e"
  using assms by (cases p) simp

text \<open>
  C2 fails for the coregionalisation kernel. \<^verbatim>\<open>Kern.eKxz\<close> calls \<^verbatim>\<open>self.K(X, Z, presliced=True)\<close>,
  and \<^verbatim>\<open>Coregion.K(self, X, X2=None)\<close> has no parameter \<^verbatim>\<open>presliced\<close>: for every setting, nodes and
  weights, Cholesky routine and input, \<^verbatim>\<open>eKxz\<close> of a \<open>Coregion\<close> kernel raises an exception and
  returns no matrix. For the kernel \<^verbatim>\<open>Coregion(1, 2, 1)\<close> as constructed, one inducing point, one
  input mean and the covariance \<open>[[1]]\<close> (its own Cholesky factor), the slicing and the quadrature
  grid succeed and the call of \<open>K\<close> raises \<^verbatim>\<open>TypeError\<close>, whatever the twenty nodes and weights are
  (here zeros and ones).
\<close>

theorem eKxz_Coregion_raises:
  "(\<exists>e. snd (eKxz setting hg chol (Coregion a W kappa) Z Xmu Xcov) = Inl e)
   \<and> Coregion_init 1 2 1 None
       = Inr (Coregion (new_attrs 1 (Slice None (Some 1) None)) [[0], [0]] [1, 1])
   \<and> eKxz ''warn'' (\<lambda>n. (replicate n 0, replicate n 1)) (\<lambda>M. Inr M)
        (Coregion (new_attrs 1 (Slice None (Some 1) None)) [[0], [0]] [1, 1])
        [[0]] [[0]] (CovFull [[[1]]])
     = ([quadrature_warning (Coregion (new_attrs 1 (Slice None (Some 1) None)) [[0], [0]] [1, 1])],
        Inl TypeError)"
proof -
  have "\<exists>e. rbind (slice a Xmu (Some Z)) (\<lambda>(Xmu, Z).
       rbind (slice_cov a Xcov) (\<lambda>Xcov.
       let N = nrows Xmu;
           M = (case Z of None \<Rightarrow> 0 | Some Z \<Rightarrow> nrows Z);
           HpowD = num_gauss_hermite_points a ^ input_dim a in
       rbind (mvhermgauss hg chol Xmu Xcov (num_gauss_hermite_points a) (input_dim a)) (\<lambda>(X, wn).
       rbind (reshape_rows (input_dim a) (concat X)) (\<lambda>Xr.
       rbind (K (Coregion a W kappa) Xr Z (Some True)) (\<lambda>Km.
       rbind (reshape3 HpowD N M (concat Km)) (\<lambda>Kxz.
       rbind (bcast2 (\<lambda>T w. Inr (map_mat (\<lambda>x. fmul x w) T)) Kxz wn) (\<lambda>Kw.
       Inr (map (\<lambda>n. map (\<lambda>m. fsum (map (\<lambda>T. T ! n ! m) Kw)) [0..<M]) [0..<N])))))))) = Inl e"
    unfolding Let_def
    by (rule rbind_raises, rule case_prod_raises, rule rbind_raises, rule rbind_raises,
        rule case_prod_raises, rule rbind_raises, simp add: rbind_def)
  then have 1: "\<exists>e. snd (eKxz setting hg chol (Coregion a W kappa) Z Xmu Xcov) = Inl e"
    by (auto simp: eKxz_def after_check_def split: prod.splits sum.splits)
  have 2: "Coregion_init 1 2 1 None
       = Inr (Coregion (new_attrs 1 (Slice None (Some 1) None)) [[0], [0]] [1, 1])"
    by (simp add: Coregion_init_def Kern_init_def rbind_def eval_nat_numeral)
  have 3: "eKxz ''warn'' (\<lambda>n. (replicate n 0, replicate n 1)) (\<lambda>M. Inr M)
        (Coregion (new_attrs 1 (Slice None (Some 1) None)) [[0], [0]] [1, 1])
        [[0]] [[0]] (CovFull [[[1]]])
     = ([quadrature_warning (Coregion (new_attrs 1 (Slice None (Some 1) None)) [[0], [0]] [1, 1])],
        Inl TypeError)"
    by (simp add: eKxz_def after_check_def check_quadrature_def
        new_attrs_def slice_def slice_cols_def slice_indices_def py_range_def select_cols_def
        ncols_def nrows_def rbind_def slice_cov_def mvhermgauss_def hermgauss_def Let_def
        matmul_T_def bcast_mat_def bcast_vec_def bcast2_def map_mat_def reshape_rows_def dot_def
        eval_nat_numeral)
  show ?thesis
    using 1 2 3 by blast
qed

end
